theory Spec2Isabelle
  imports Complex_Main "HOL-Library.Word"
begin

section \<open>Samples and saturation\<close>

text \<open>
  A sample (\<open>sox_ssample_t\<close>) is a signed 32-bit integer in two's complement.
  Counters of type \<open>sox_size_t\<close> are unsigned machine integers; the typedef
  is not part of \<open>sox.c\<close>, so its width is left open as the length \<open>'c\<close> of a word type.
\<close>

type_synonym sox_ssample_t = "32 word"




section \<open>Files and effects as \<open>sox.c\<close> sees them\<close>

text \<open>
  \<open>exit(n)\<close> ends the program; the model returns \<open>Inl (Exit n msg)\<close>, where
  \<open>msg\<close> is the text given to \<open>sox_fail\<close> or \<open>usage\<close> just before, if any.
  An access to an entry that an array does not have has no defined behaviour in C; the
  model ends there with \<open>Inl Out_of_bounds\<close>.
\<close>

datatype failure = Exit nat string | Out_of_bounds

datatype combine_method = sox_sequence | sox_concatenate | sox_mix | sox_merge

text \<open>
  The fields of \<open>sox_signalinfo_t\<close> and of the file descriptor \<open>ft_t\<close> that the
  functions modelled here read. \<open>HUGE_VAL\<close>, the mark of a \<open>double\<close> that was
  not set, is \<open>None\<close>. Counts and lengths of type \<open>sox_size_t\<close> are words of the open
  width \<open>'c\<close>; channel counts, rates and buffer offsets are natural numbers.
\<close>

datatype sox_encoding_t =
  SOX_ENCODING_UNKNOWN | SOX_ENCODING_SIGN2 | SOX_ENCODING_UNSIGNED | SOX_ENCODING_FLOAT
  | SOX_ENCODING_ADPCM | SOX_ENCODING_MS_ADPCM | SOX_ENCODING_IMA_ADPCM
  | SOX_ENCODING_OKI_ADPCM | SOX_ENCODING_GSM | SOX_ENCODING_ULAW | SOX_ENCODING_ALAW

datatype sox_option_t = SOX_OPTION_NO | SOX_OPTION_YES | SOX_OPTION_DEFAULT

record sox_signalinfo_t =
  rate :: nat
  size_si :: int
  encoding :: sox_encoding_t
  channels :: nat
  compression :: "real option"
  reverse_bytes :: sox_option_t
  reverse_nibbles :: sox_option_t
  reverse_bits :: sox_option_t

record (overloaded) 'c sox_format =
  signal :: sox_signalinfo_t
  length_ft :: "'c word"
  clips_ft :: "'c word"
  comment_ft :: "string option"

text \<open>
  Modelled from the spec: the capability flags of an effect handler, \<open>h->flags\<close>, are
  bits \<open>SOX_EFF_...\<close> defined in \<open>sox.h\<close> (the spec names them \<open>CHAN\<close>,
  \<open>RATE\<close>, \<open>LENGTH\<close>, \<open>MULTICHAN\<close>, \<open>NULL\<close>, \<open>DEPRECATED\<close>); the test
  \<open>h->flags & SOX_EFF_X\<close> is membership in a set of flags.
\<close>

datatype eff_flag =
  SOX_EFF_CHAN | SOX_EFF_RATE | SOX_EFF_LENGTH | SOX_EFF_MCHAN | SOX_EFF_NULL
  | SOX_EFF_DEPRECATED

section \<open>The length hint for the output file\<close>

text \<open>
  The locals of \<open>process\<close> that its loop over the inputs updates.
\<close>

record (overloaded) 'c input_totals =
  total_channels :: "'c word"
  min_channels :: "'c word"
  max_channels :: "'c word"
  min_rate :: "'c word"
  max_rate :: "'c word"
  known_length :: bool
  olen_hint :: "'c word"

text \<open>
  The body of \<open>for (i = 0; i < input_count; i++)\<close> in the branch of \<open>process\<close> for
  the methods other than sequence, for the descriptor \<open>files[i]->desc\<close>.
\<close>

definition scan_input ::
  "combine_method \<Rightarrow> 'c::len sox_format \<Rightarrow> 'c input_totals \<Rightarrow> 'c input_totals" where
  "scan_input combine desc t =
     t\<lparr>total_channels := total_channels t + of_nat (channels (signal desc)),
       min_channels := min (min_channels t) (of_nat (channels (signal desc))),
       max_channels := max (max_channels t) (of_nat (channels (signal desc))),
       min_rate := min (min_rate t) (of_nat (rate (signal desc))),
       max_rate := max (max_rate t) (of_nat (rate (signal desc))),
       known_length := (known_length t \<and> length_ft desc \<noteq> 0),
       olen_hint :=
         (if combine = sox_concatenate
          then olen_hint t + length_ft desc div of_nat (channels (signal desc))
          else max (olen_hint t) (length_ft desc div of_nat (channels (signal desc))))\<rparr>"

definition init_totals :: "combine_method \<Rightarrow> 'c::len input_totals" where
  "init_totals combine =
     \<lparr>total_channels = 0, min_channels = - 1, max_channels = 0,
      min_rate = - 1, max_rate = 0,
      known_length = (combine \<noteq> sox_sequence), olen_hint = 0\<rparr>"

text \<open>
  \<open>process\<close> from its start to the value of \<open>olen\<close> that it hands to
  \<open>sox_open_write\<close>: the scan of the inputs, the exits on inputs that do not agree,
  and the scan of the user effects for \<open>SOX_EFF_LENGTH\<close>. The arguments are the
  descriptors of the inputs and the flags of the user effects.
\<close>

definition process_length_hint ::
  "combine_method \<Rightarrow> 'c::len sox_format list \<Rightarrow> eff_flag set list \<Rightarrow> failure + 'c word" where
  "process_length_hint combine descs user_flags =
     (let t = (if combine = sox_sequence then init_totals combine
               else fold (scan_input combine) descs (init_totals combine))
      in if combine \<noteq> sox_sequence \<and> min_channels t \<noteq> max_channels t
            \<and> combine = sox_concatenate
         then Inl (Exit 1 ''Input files must have the same # channels'')
         else if combine \<noteq> sox_sequence \<and> min_rate t \<noteq> max_rate t
         then Inl (Exit 1 ''Input files must have the same sample-rate'')
         else
           (let known = fold (\<lambda>fl k. k \<and> SOX_EFF_LENGTH \<notin> fl) user_flags (known_length t)
            in Inr (if \<not> known then 0 else olen_hint t)))"

text \<open>The length of an input in wide samples, as \<open>process\<close> computes it.\<close>

definition wide_length :: "'c::len sox_format \<Rightarrow> 'c word" where
  "wide_length desc = length_ft desc div of_nat (channels (signal desc))"

section \<open>The combiner: mixing\<close>

text \<open>
  What the mixing loop of \<open>process\<close> reads of input \<open>i\<close>: the channel count
  \<open>files[i]->desc->signal.channels\<close>, the number \<open>ilen[i]\<close> of wide samples that
  \<open>sox_read_wide\<close> returned for this block, and the buffer \<open>ibuf[i]\<close> after
  \<open>balance_input\<close>.
\<close>

record mix_input =
  nchannels :: nat
  ilen :: nat
  ibuf :: "sox_ssample_t list"

text \<open>
  The state the loop writes: the sentinel's buffer \<open>efftab[0].obuf\<close>, the pointer
  \<open>p\<close> as an offset into it, and the global counter \<open>mixing_clips\<close>.
\<close>

record (overloaded) 'c mix_state =
  obuf0 :: "sox_ssample_t list"
  p :: nat
  mixing_clips :: "'c word"






subsection \<open>The saturating sum, as the spec words it\<close>





text \<open>
  The samples that contribute to channel \<open>s\<close> of wide sample \<open>ws\<close>: one of every input
  that still has data at \<open>ws\<close> and has a channel \<open>s\<close>, in input order.
\<close>

definition contributors :: "mix_input list \<Rightarrow> nat \<Rightarrow> nat \<Rightarrow> sox_ssample_t list" where
  "contributors files ws s =
     map (\<lambda>f. ibuf f ! (ws * nchannels f + s))
       (filter (\<lambda>f. ws < ilen f \<and> s < nchannels f) files)"



subsection \<open>A block of two inputs\<close>



subsection \<open>Two inputs to be mixed\<close>

definition cd_signal :: "nat \<Rightarrow> sox_signalinfo_t" where
  "cd_signal n = \<lparr>rate = 44100, size_si = 2, encoding = SOX_ENCODING_SIGN2, channels = n,
                  compression = None, reverse_bytes = SOX_OPTION_DEFAULT,
                  reverse_nibbles = SOX_OPTION_DEFAULT, reverse_bits = SOX_OPTION_DEFAULT\<rparr>"

definition hint_desc1 :: "32 sox_format" where
  "hint_desc1 = \<lparr>signal = cd_signal 2, length_ft = 8, clips_ft = 0, comment_ft = None\<rparr>"

definition hint_desc2 :: "32 sox_format" where
  "hint_desc2 = \<lparr>signal = cd_signal 1, length_ft = 6, clips_ft = 0, comment_ft = None\<rparr>"

text \<open>Two mono inputs whose lengths add up to more than 32 bits hold.\<close>

definition long_desc1 :: "32 sox_format" where
  "long_desc1 = \<lparr>signal = cd_signal 1, length_ft = 4294967295, clips_ft = 0, comment_ft = None\<rparr>"

definition long_desc2 :: "32 sox_format" where
  "long_desc2 = \<lparr>signal = cd_signal 1, length_ft = 2, clips_ft = 0, comment_ft = None\<rparr>"

section \<open>The effects chain\<close>

text \<open>
  An entry of \<open>efftab\<close> (\<open>struct sox_effect\<close>): its name, the flags of its handler
  (\<open>h->flags\<close>), the signal on either side, the handler's private state, the output
  buffer with \<open>olen\<close> samples produced of which \<open>odone\<close> are consumed, and the clip
  counter. \<open>odone\<close> and \<open>olen\<close> count samples of one buffer and are natural numbers.
\<close>

record (overloaded) ('p, 'c) sox_effect =
  name :: string
  flags :: "eff_flag set"
  ininfo :: sox_signalinfo_t
  outinfo :: sox_signalinfo_t
  priv :: 'p
  obuf :: "sox_ssample_t list"
  odone :: nat
  olen :: nat
  clips :: "'c word"

text \<open>
  What a library call or a handler returns. \<open>sox.c\<close> tests a status for
  \<open>SOX_SUCCESS\<close> (which it also writes \<open>0\<close>), \<open>SOX_EOF\<close> and, after \<open>start\<close>,
  \<open>SOX_EFF_NULL\<close>; any other value is \<open>SOX_OTHER\<close>.
\<close>

datatype status = SOX_SUCCESS | SOX_EOF | SOX_EFF_NULL_status | SOX_OTHER

text \<open>
  The result of a \<open>flow\<close> or \<open>drain\<close> handler: its status, the private state and clip
  counter it leaves in the effect, the number of input samples it took (\<open>*isamp\<close> on
  return) and the samples it wrote to the start of the output area; their number is
  \<open>*osamp\<close> on return.
\<close>

record (overloaded) ('p, 'c) handler_out =
  rc :: status
  priv_out :: 'p
  clips_out :: "'c word"
  isamp_out :: nat
  samples_out :: "sox_ssample_t list"

text \<open>
  The effects library is not part of \<open>sox.c\<close>; its functions and the handlers behind
  \<open>e->h\<close> are parameters. A handler is given the effect and returns what it changes in
  it: the private state and the clip counter. \<open>sox_geteffect\<close> yields the flags and
  the initial private state of the handler it finds for a name, and
  \<open>sox_updateeffect\<close> the \<open>ininfo\<close> and \<open>outinfo\<close> it stores and the new mask.
  A missing handler (\<open>sox_effect_nothing\<close> and its relatives) is a case of these
  functions.
\<close>

record (overloaded) ('p, 'c) effect_lib =
  sox_geteffect :: "string \<Rightarrow> eff_flag set \<times> 'p"
  sox_updateeffect ::
    "('p, 'c) sox_effect \<Rightarrow> sox_signalinfo_t \<Rightarrow> sox_signalinfo_t \<Rightarrow> int
       \<Rightarrow> sox_signalinfo_t \<times> sox_signalinfo_t \<times> int"
  h_getopts :: "('p, 'c) sox_effect \<Rightarrow> string list \<Rightarrow> status \<times> 'p"
  h_start :: "('p, 'c) sox_effect \<Rightarrow> status \<times> 'p \<times> 'c word"
  h_flow :: "('p, 'c) sox_effect \<Rightarrow> sox_ssample_t list \<Rightarrow> nat \<Rightarrow> ('p, 'c) handler_out"
  h_drain :: "('p, 'c) sox_effect \<Rightarrow> nat \<Rightarrow> ('p, 'c) handler_out"
  h_stop :: "('p, 'c) sox_effect \<Rightarrow> 'p \<times> 'c word"

text \<open>
  The tables \<open>efftab\<close> and \<open>efftabR\<close>, arrays of \<open>MAX_EFF\<close> entries, and
  \<open>neffects\<close>. An entry of \<open>efftabR\<close> whose \<open>name\<close> is \<open>NULL\<close> (the entry was
  zeroed) is \<open>None\<close>.
\<close>

definition MAX_EFF :: nat where
  "MAX_EFF = 16"

definition MAX_USER_EFF :: nat where
  "MAX_USER_EFF = 14"

record (overloaded) ('p, 'c) chain =
  efftab :: "('p, 'c) sox_effect list"
  efftabR :: "('p, 'c) sox_effect option list"
  neffects :: nat

definition bind_exit :: "failure + 'a \<Rightarrow> ('a \<Rightarrow> failure + 'b) \<Rightarrow> failure + 'b" where
  "bind_exit r f = (case r of Inl x \<Rightarrow> Inl x | Inr v \<Rightarrow> f v)"

subsection \<open>Building the chain\<close>

text \<open>
  \<open>add_effect\<close> works on the entry \<open>efftab[neffects]\<close>, which its caller has filled;
  the second component of the state is \<open>effects_mask\<close>. The tables are the lists
  \<open>efftab\<close> and \<open>efftabR\<close>, and an index at or beyond their length is outside the
  array.
\<close>

definition add_effect ::
  "('p, 'c::len) effect_lib \<Rightarrow> sox_signalinfo_t \<Rightarrow> sox_signalinfo_t
     \<Rightarrow> ('p, 'c) chain \<times> int \<Rightarrow> failure + ('p, 'c) chain \<times> int" where
  "add_effect lib combiner osignal = (\<lambda>(ch, effects_mask).
     if neffects ch < length (efftab ch) \<and> neffects ch < length (efftabR ch) then
       (let e = efftab ch ! neffects ch;
            (ii, oi, mask') = sox_updateeffect lib e combiner osignal effects_mask;
            e' = e\<lparr>ininfo := ii, outinfo := oi\<rparr>
        in Inr (ch\<lparr>efftab := (efftab ch)[neffects ch := e'],
                   efftabR := (efftabR ch)[neffects ch :=
                      (if channels (ininfo e') > 1 \<and> SOX_EFF_MCHAN \<notin> flags e' then Some e'
                       else None)],
                   neffects := neffects ch + 1\<rparr>,
                mask'))
     else Inl Out_of_bounds)"

text \<open>
  \<open>add_default_effect\<close>: \<open>sox_geteffect\<close> writes the entry \<open>efftab[neffects]\<close>, then
  \<open>getopts\<close> is called without arguments.
\<close>

definition add_default_effect ::
  "('p, 'c::len) effect_lib \<Rightarrow> sox_signalinfo_t \<Rightarrow> sox_signalinfo_t \<Rightarrow> string
     \<Rightarrow> ('p, 'c) chain \<times> int \<Rightarrow> failure + ('p, 'c) chain \<times> int" where
  "add_default_effect lib combiner osignal nm = (\<lambda>(ch, effects_mask).
     if neffects ch < length (efftab ch) then
       (let e = efftab ch ! neffects ch;
            (fl, pr) = sox_geteffect lib nm;
            e1 = e\<lparr>name := nm, flags := fl, priv := pr\<rparr>;
            (r, pr') = h_getopts lib e1 []
        in if r = SOX_EOF then Inl (Exit 2 [])
           else add_effect lib combiner osignal
                  (ch\<lparr>efftab := (efftab ch)[neffects ch := e1\<lparr>priv := pr'\<rparr>]\<rparr>,
                   effects_mask))
     else Inl Out_of_bounds)"

text \<open>
  The loop of \<open>build_effects_table\<close> over the user effects; the state is
  \<open>need_chan\<close>, \<open>need_rate\<close>, \<open>user_chan_effects\<close> and \<open>user_rate_effects\<close>.
\<close>

definition scan_user_effect ::
  "('p, 'c::len) sox_effect \<Rightarrow> bool \<times> bool \<times> nat \<times> nat \<Rightarrow> bool \<times> bool \<times> nat \<times> nat" where
  "scan_user_effect e = (\<lambda>(need_chan, need_rate, user_chan_effects, user_rate_effects).
     (if SOX_EFF_CHAN \<in> flags e then False else need_chan,
      if SOX_EFF_RATE \<in> flags e then False else need_rate,
      if SOX_EFF_CHAN \<in> flags e then user_chan_effects + 1 else user_chan_effects,
      if SOX_EFF_RATE \<in> flags e then user_rate_effects + 1 else user_rate_effects))"

text \<open>
  The body of the loop that copies the user effects into \<open>efftab\<close>: the \<open>memcpy\<close> to
  \<open>efftab[neffects]\<close> and the call of \<open>add_effect\<close>; and the loop.
\<close>

definition add_user_effect ::
  "('p, 'c::len) effect_lib \<Rightarrow> sox_signalinfo_t \<Rightarrow> sox_signalinfo_t \<Rightarrow> ('p, 'c) sox_effect
     \<Rightarrow> ('p, 'c) chain \<times> int \<Rightarrow> failure + ('p, 'c) chain \<times> int" where
  "add_user_effect lib combiner osignal u = (\<lambda>(ch, effects_mask).
     if neffects ch < length (efftab ch)
     then add_effect lib combiner osignal
            (ch\<lparr>efftab := (efftab ch)[neffects ch := u]\<rparr>, effects_mask)
     else Inl Out_of_bounds)"

fun add_user_effects ::
  "('p, 'c::len) effect_lib \<Rightarrow> sox_signalinfo_t \<Rightarrow> sox_signalinfo_t \<Rightarrow> ('p, 'c) sox_effect list
     \<Rightarrow> ('p, 'c) chain \<times> int \<Rightarrow> failure + ('p, 'c) chain \<times> int" where
  "add_user_effects lib combiner osignal [] s = Inr s"
| "add_user_effects lib combiner osignal (u # us) s =
     bind_exit (add_user_effect lib combiner osignal u s)
       (add_user_effects lib combiner osignal us)"

text \<open>
  \<open>build_effects_table\<close>. Its arguments beside the library are the globals it reads:
  \<open>combiner\<close>, \<open>ofile->desc->signal\<close>, the \<open>nuser_effects\<close> entries of
  \<open>user_efftab\<close>, and the tables.
\<close>

definition build_effects_table ::
  "('p, 'c::len) effect_lib \<Rightarrow> sox_signalinfo_t \<Rightarrow> sox_signalinfo_t \<Rightarrow> ('p, 'c) sox_effect list
     \<Rightarrow> ('p, 'c) chain \<Rightarrow> failure + ('p, 'c) chain \<times> int" where
  "build_effects_table lib combiner osignal user_efftab ch =
     (case fold scan_user_effect user_efftab
             (channels combiner \<noteq> channels osignal, rate combiner \<noteq> rate osignal, 0, 0) of
        (need_chan, need_rate, user_chan_effects, user_rate_effects) \<Rightarrow>
       if user_chan_effects > 1
       then Inl (Exit 2 ''Cannot specify multiple effects that change number of channels'')
       else
         bind_exit
           (if need_chan \<and> channels combiner > channels osignal
            then add_default_effect lib combiner osignal ''mixer'' (ch\<lparr>neffects := 1\<rparr>, 0)
            else Inr (ch\<lparr>neffects := 1\<rparr>, 0))
           (\<lambda>s1. let need_chan1 = (need_chan \<and> \<not> channels combiner > channels osignal) in
         bind_exit
           (if need_rate \<and> rate combiner > rate osignal
            then add_default_effect lib combiner osignal ''resample'' s1
            else Inr s1)
           (\<lambda>s2. let need_rate1 = (need_rate \<and> \<not> rate combiner > rate osignal) in
         bind_exit (add_user_effects lib combiner osignal user_efftab s2)
           (\<lambda>s3.
         bind_exit
           (if need_rate1 then add_default_effect lib combiner osignal ''resample'' s3
            else Inr s3)
           (\<lambda>s4. if need_chan1 then add_default_effect lib combiner osignal ''mixer'' s4
                  else Inr s4)))))"

subsection \<open>Starting the effects\<close>

text \<open>
  The inner loop of \<open>start_all_effects\<close> that removes entry \<open>i\<close>:
  \<open>--neffects; for (j = i; j < neffects; ++j)\<close> moves each later entry down by one.
\<close>

definition shift_down :: "nat \<Rightarrow> ('p, 'c::len) chain \<Rightarrow> ('p, 'c) chain" where
  "shift_down j ch = ch\<lparr>efftab := (efftab ch)[j := efftab ch ! (j + 1)],
                        efftabR := (efftabR ch)[j := efftabR ch ! (j + 1)]\<rparr>"

definition remove_effect :: "nat \<Rightarrow> ('p, 'c::len) chain \<Rightarrow> ('p, 'c) chain" where
  "remove_effect i ch =
     fold shift_down [i..<neffects ch - 1] (ch\<lparr>neffects := neffects ch - 1\<rparr>)"

lemma neffects_fold_shift: "neffects (fold shift_down js c) = neffects c"
  by (induction js arbitrary: c) (simp_all add: shift_down_def)

lemma neffects_remove_effect: "neffects (remove_effect i ch) = neffects ch - 1"
  by (simp add: remove_effect_def neffects_fold_shift)

text \<open>
  The loop \<open>for (i = 1; i < neffects; i++)\<close> of \<open>start_all_effects\<close>, from index
  \<open>i\<close>. After a removal the source decrements \<open>i\<close> and the loop increments it
  again, so the same index is looked at next. The \<open>kill\<close> of a removed effect only
  frees what the entry owned. The last argument is the list of the names of the
  effects whose \<open>start\<close> has been called, in the order of the calls; it comes back
  with the calls of the loop added.
\<close>

function start_loop ::
  "('p, 'c::len) effect_lib \<Rightarrow> nat \<Rightarrow> ('p, 'c) chain \<Rightarrow> string list
     \<Rightarrow> status \<times> ('p, 'c) chain \<times> string list" where
  "start_loop lib i ch started =
     (if i < neffects ch then
        (let e = efftab ch ! i in
         if SOX_EFF_NULL \<in> flags e then start_loop lib i (remove_effect i ch) started
         else
           (let e0 = e\<lparr>clips := 0\<rparr>;
                r = h_start lib e0;
                e1 = e0\<lparr>priv := fst (snd r), clips := snd (snd r)\<rparr>;
                ch1 = ch\<lparr>efftab := (efftab ch)[i := e1]\<rparr>;
                started1 = started @ [name e]
            in if fst r = SOX_EFF_NULL_status
               then start_loop lib i (remove_effect i ch1) started1
               else if fst r \<noteq> SOX_SUCCESS then (SOX_EOF, ch1, started1)
               else
                 (case efftabR ch1 ! i of
                    None \<Rightarrow> start_loop lib (i + 1) ch1 started1
                  | Some t \<Rightarrow>
                      (let t0 = t\<lparr>clips := 0\<rparr>;
                           rR = h_start lib t0;
                           t1 = t0\<lparr>priv := fst (snd rR), clips := snd (snd rR)\<rparr>;
                           ch2 = ch1\<lparr>efftabR := (efftabR ch1)[i := Some t1]\<rparr>;
                           started2 = started1 @ [name t]
                       in if fst rR \<noteq> SOX_SUCCESS then (SOX_EOF, ch2, started2)
                          else start_loop lib (i + 1) ch2 started2))))
      else (SOX_SUCCESS, ch, started))"
  by pat_completeness auto

termination
  by (relation "measure (\<lambda>(lib, i, ch, started). neffects ch - i)")
     (auto simp add: neffects_remove_effect)

definition start_all_effects ::
  "('p, 'c::len) effect_lib \<Rightarrow> ('p, 'c) chain \<Rightarrow> status \<times> ('p, 'c) chain \<times> string list" where
  "start_all_effects lib ch = start_loop lib 1 ch []"

text \<open>
  The two calls in \<open>process\<close>: \<open>build_effects_table\<close>, then \<open>start_all_effects\<close>
  with \<open>exit(2)\<close> when it does not succeed. The first component of the result is the
  list of the effects whose \<open>start\<close> was called: it is empty as long as no effect of
  the chain has been started.
\<close>

definition process_chain ::
  "('p, 'c::len) effect_lib \<Rightarrow> sox_signalinfo_t \<Rightarrow> sox_signalinfo_t \<Rightarrow> ('p, 'c) sox_effect list
     \<Rightarrow> ('p, 'c) chain \<Rightarrow> string list \<times> (failure + ('p, 'c) chain)" where
  "process_chain lib combiner osignal user_efftab ch =
     (case build_effects_table lib combiner osignal user_efftab ch of
        Inl x \<Rightarrow> ([], Inl x)
      | Inr (ch1, effects_mask) \<Rightarrow>
          (case start_all_effects lib ch1 of
             (r, ch2, started) \<Rightarrow>
               (started, if r \<noteq> SOX_SUCCESS then Inl (Exit 2 []) else Inr ch2)))"

subsection \<open>Stopping the effects and counting clips\<close>

text \<open>
  The body of the loop of \<open>stop_effects\<close> for entry \<open>e\<close>: the state is the tables
  and the warnings printed so far, each the effect's name and the count shown.
\<close>

definition stop_effect ::
  "('p, 'c::len) effect_lib \<Rightarrow> nat \<Rightarrow> ('p, 'c) chain \<times> (string \<times> 'c word) list
     \<Rightarrow> ('p, 'c) chain \<times> (string \<times> 'c word) list" where
  "stop_effect lib e = (\<lambda>(ch, warnings).
     (let l = efftab ch ! e;
          s = h_stop lib l;
          ch1 = ch\<lparr>efftab := (efftab ch)[e := l\<lparr>priv := fst s, clips := snd s\<rparr>]\<rparr>;
          clips1 = clips (efftab ch1 ! e);
          (ch2, clips2) =
            (case efftabR ch1 ! e of
               None \<Rightarrow> (ch1, clips1)
             | Some r \<Rightarrow>
                 (let sR = h_stop lib r
                  in (ch1\<lparr>efftabR := (efftabR ch1)[e := Some (r\<lparr>priv := fst sR, clips := snd sR\<rparr>)]\<rparr>,
                      clips1 + clips (efftab ch1 ! e))))
      in (ch2, if clips2 \<noteq> 0 then warnings @ [(name (efftab ch2 ! e), clips2)] else warnings)))"

definition stop_effects ::
  "('p, 'c::len) effect_lib \<Rightarrow> ('p, 'c) chain \<Rightarrow> ('p, 'c) chain \<times> (string \<times> 'c word) list" where
  "stop_effects lib ch = fold (stop_effect lib) [1..<neffects ch] (ch, [])"

text \<open>
  An entry of \<open>files\<close> (\<open>struct file_info\<close>); a \<open>NULL\<close> pointer is \<open>None\<close>.
\<close>

record (overloaded) 'c file_info =
  filename :: "string option"
  filetype :: "string option"
  signal_fi :: sox_signalinfo_t
  volume :: "real option"
  replay_gain :: "real option"
  comment :: "string option"
  volume_clips :: "'c word"
  desc :: "'c sox_format option"

text \<open>
  \<open>total_clips\<close>, over the \<open>file_count\<close> entries of \<open>files\<close>, \<open>mixing_clips\<close> and
  the tables. It reads \<open>files[i]->desc->clips\<close>; the result is \<open>None\<close> if a
  descriptor is \<open>NULL\<close>.
\<close>

definition effect_clips :: "('p, 'c::len) chain \<Rightarrow> nat \<Rightarrow> 'c word \<Rightarrow> 'c word" where
  "effect_clips ch i cl =
     (let cl1 = cl + clips (efftab ch ! i)
      in case efftabR ch ! i of None \<Rightarrow> cl1 | Some r \<Rightarrow> cl1 + clips (efftab ch ! i))"

definition total_clips ::
  "'c::len file_info list \<Rightarrow> 'c word \<Rightarrow> ('p, 'c) chain \<Rightarrow> 'c word option" where
  "total_clips files mixing_clips_now ch =
     (if \<exists>f \<in> set files. desc f = None then None
      else Some (fold (effect_clips ch) [1..<neffects ch]
                   (fold (\<lambda>f cl. cl + clips_ft (the (desc f)) + volume_clips f) files 0
                    + mixing_clips_now)))"

text \<open>The names of the effects in the chain, sentinel first.\<close>

definition chain_names :: "('p, 'c::len) chain \<Rightarrow> string list" where
  "chain_names ch = map name (take (neffects ch) (efftab ch))"

text \<open>
  Whether a channel or rate change is still needed once the user effects have been
  looked at, as the spec's chain builder defines it.
\<close>

definition need_chan_after ::
  "sox_signalinfo_t \<Rightarrow> sox_signalinfo_t \<Rightarrow> ('p, 'c::len) sox_effect list \<Rightarrow> bool" where
  "need_chan_after combiner osignal user_efftab \<longleftrightarrow>
     channels combiner \<noteq> channels osignal
     \<and> \<not> (\<exists>e \<in> set user_efftab. SOX_EFF_CHAN \<in> flags e)"

definition need_rate_after ::
  "sox_signalinfo_t \<Rightarrow> sox_signalinfo_t \<Rightarrow> ('p, 'c::len) sox_effect list \<Rightarrow> bool" where
  "need_rate_after combiner osignal user_efftab \<longleftrightarrow>
     rate combiner \<noteq> rate osignal
     \<and> \<not> (\<exists>e \<in> set user_efftab. SOX_EFF_RATE \<in> flags e)"

subsection \<open>A small effects library and an empty table\<close>

text \<open>
  Three effects with no private state: a mixer and a resampler that take interleaved
  channels, and \<open>vol\<close>, which does not. Each hands on as many samples as it is given
  room for, and holds nothing back for \<open>drain\<close>.
\<close>

definition lib_ex :: "(unit, 32) effect_lib" where
  "lib_ex =
     \<lparr>sox_geteffect = (\<lambda>nm.
        (if nm = ''mixer'' then {SOX_EFF_MCHAN, SOX_EFF_CHAN}
         else if nm = ''resample'' then {SOX_EFF_MCHAN, SOX_EFF_RATE} else {}, ())),
      sox_updateeffect = (\<lambda>e combiner osignal m.
        (if SOX_EFF_CHAN \<in> flags e then combiner else osignal, osignal, m)),
      h_getopts = (\<lambda>e args. (SOX_SUCCESS, ())),
      h_start = (\<lambda>e. (SOX_SUCCESS, (), clips e)),
      h_flow = (\<lambda>e ibuf osamp.
        \<lparr>rc = SOX_SUCCESS, priv_out = (), clips_out = clips e,
         isamp_out = min (length ibuf) osamp, samples_out = take osamp ibuf\<rparr>),
      h_drain = (\<lambda>e osamp.
        \<lparr>rc = SOX_EOF, priv_out = (), clips_out = clips e, isamp_out = 0, samples_out = []\<rparr>),
      h_stop = (\<lambda>e. ((), clips e))\<rparr>"

definition effect_ex :: "string \<Rightarrow> eff_flag set \<Rightarrow> (unit, 32) sox_effect" where
  "effect_ex nm fl =
     \<lparr>name = nm, flags = fl, ininfo = cd_signal 0, outinfo = cd_signal 0, priv = (),
      obuf = [], odone = 0, olen = 0, clips = 0\<rparr>"

definition chain_empty :: "(unit, 32) chain" where
  "chain_empty =
     \<lparr>efftab = replicate MAX_EFF (effect_ex [] {}), efftabR = replicate MAX_EFF None,
      neffects = 0\<rparr>"

text \<open>
  A chain of the sentinel and \<open>vol\<close> on a stereo stream: \<open>vol\<close> runs as a left and a
  right instance, which have clipped 3 and 4 samples.
\<close>

definition chain_twin_ex :: "(unit, 32) chain" where
  "chain_twin_ex =
     \<lparr>efftab = (replicate MAX_EFF (effect_ex [] {}))
                 [1 := (effect_ex ''vol'' {})\<lparr>clips := 3\<rparr>],
      efftabR = (replicate MAX_EFF None)
                 [1 := Some ((effect_ex ''vol'' {})\<lparr>clips := 4\<rparr>)],
      neffects = 2\<rparr>"

section \<open>The flow scheduler\<close>

text \<open>
  The state of the scheduler: the tables, \<open>input_eff\<close> and \<open>input_eff_eof\<close>, the
  scratch buffers \<open>obufl\<close> and \<open>obufr\<close> of the splitter, \<open>output_samples\<close>, and the
  output file, whose state \<open>'f\<close> only \<open>sox_write\<close> knows. \<open>user_abort\<close> is set by a
  signal handler at a moment the program does not choose: \<open>abort_after = Some k\<close> says
  that the signal arrives after \<open>k\<close> more reads of the flag, \<open>None\<close> that it never does.
\<close>

record (overloaded) ('p, 'c, 'f) sched = "('p, 'c) chain" +
  input_eff :: nat
  input_eff_eof :: bool
  obufl :: "sox_ssample_t list"
  obufr :: "sox_ssample_t list"
  output_samples :: nat
  ofile :: 'f
  abort_after :: "nat option"

text \<open>A read of \<open>user_abort\<close>.\<close>

definition poll_abort :: "('p, 'c::len, 'f) sched \<Rightarrow> bool \<times> ('p, 'c, 'f) sched" where
  "poll_abort st =
     (case abort_after st of
        None \<Rightarrow> (False, st)
      | Some 0 \<Rightarrow> (True, st)
      | Some (Suc k) \<Rightarrow> (False, st\<lparr>abort_after := Some k\<rparr>))"

text \<open>
  \<open>write_at buf pos xs\<close> stores the samples \<open>xs\<close> at \<open>buf[pos]\<close>, \<open>buf[pos + 1]\<close>
  and so on, as a handler does through the pointer it is given.
\<close>

fun write_at :: "'a list \<Rightarrow> nat \<Rightarrow> 'a list \<Rightarrow> 'a list" where
  "write_at buf pos [] = buf"
| "write_at buf pos (x # xs) = write_at (buf[pos := x]) (Suc pos) xs"

text \<open>
  The loop of \<open>flow_effect\<close> that splits the input into \<open>ibufl\<close> and \<open>ibufr\<close>: the
  samples at even offsets go left, those at odd offsets right.
\<close>

fun deinterleave_l :: "'a list \<Rightarrow> 'a list" where
  "deinterleave_l [] = []"
| "deinterleave_l [x] = [x]"
| "deinterleave_l (x # y # zs) = x # deinterleave_l zs"

fun deinterleave_r :: "'a list \<Rightarrow> 'a list" where
  "deinterleave_r [] = []"
| "deinterleave_r [x] = []"
| "deinterleave_r (x # y # zs) = y # deinterleave_r zs"

text \<open>
  The loop \<open>for (i = 0; i < n; i++) { *obuf++ = obufl[i]; *obuf++ = obufr[i]; }\<close> of
  \<open>flow_effect\<close> and \<open>drain_effect\<close>, with \<open>obuf\<close> starting at offset \<open>pos\<close> of
  \<open>buf\<close>.
\<close>

definition interleave_into ::
  "'a list \<Rightarrow> nat \<Rightarrow> 'a list \<Rightarrow> 'a list \<Rightarrow> nat \<Rightarrow> 'a list" where
  "interleave_into buf pos l r n =
     fold (\<lambda>i b. b[pos + 2 * i := l ! i, pos + 2 * i + 1 := r ! i]) [0..<n] buf"

text \<open>The end of \<open>flow_effect\<close>, from \<open>if (effstatus == SOX_EOF)\<close> on.\<close>

definition flow_result ::
  "status \<Rightarrow> nat \<Rightarrow> ('p, 'c::len, 'f) sched \<Rightarrow> failure + status \<times> ('p, 'c, 'f) sched" where
  "flow_result effstatus done st =
     (if effstatus = SOX_EOF then Inr (SOX_EOF, st)
      else if done = 0 then Inl (Exit 2 ''Effect took & gave no samples!'')
      else Inr (SOX_SUCCESS, st))"

text \<open>
  The branch of \<open>flow_effect\<close> for an effect without a right instance. The handler is
  given the unread samples of the stage before and the room left in its own buffer.
\<close>

definition flow_mono ::
  "('p, 'c::len) effect_lib \<Rightarrow> nat \<Rightarrow> nat \<Rightarrow> ('p, 'c, 'f) sched
     \<Rightarrow> failure + status \<times> ('p, 'c, 'f) sched" where
  "flow_mono lib sox_bufsiz e st =
     (let prev = efftab st ! (e - 1);
          cur = efftab st ! e;
          idone = olen prev - odone prev;
          odone_room = sox_bufsiz - olen cur;
          r = h_flow lib cur (take idone (drop (odone prev) (obuf prev))) odone_room;
          prev' = prev\<lparr>odone := odone prev + isamp_out r\<rparr>;
          cur' = cur\<lparr>priv := priv_out r, clips := clips_out r,
                     obuf := write_at (obuf cur) (olen cur) (samples_out r),
                     olen := olen cur + length (samples_out r)\<rparr>
      in flow_result (rc r) (isamp_out r + length (samples_out r))
           (st\<lparr>efftab := (efftab st)[e - 1 := prev', e := cur']\<rparr>))"

text \<open>
  The branch for an effect with a right instance \<open>right = efftabR[e]\<close>.
\<close>

definition flow_twin ::
  "('p, 'c::len) effect_lib \<Rightarrow> nat \<Rightarrow> nat \<Rightarrow> ('p, 'c) sox_effect \<Rightarrow> ('p, 'c, 'f) sched
     \<Rightarrow> failure + status \<times> ('p, 'c, 'f) sched" where
  "flow_twin lib sox_bufsiz e right st =
     (let prev = efftab st ! (e - 1);
          cur = efftab st ! e;
          idone = olen prev - odone prev;
          odone_room = sox_bufsiz - olen cur;
          ibuf = take idone (drop (odone prev) (obuf prev));
          rl = h_flow lib cur (deinterleave_l ibuf) (odone_room div 2);
          obufl' = write_at (obufl st) 0 (samples_out rl);
          idonel = isamp_out rl;
          odonel = length (samples_out rl);
          rr = h_flow lib right (deinterleave_r ibuf) (odone_room div 2);
          obufr' = write_at (obufr st) 0 (samples_out rr);
          idoner = isamp_out rr;
          odoner = length (samples_out rr);
          prev' = prev\<lparr>odone := odone prev + (idonel + idoner)\<rparr>;
          cur' = cur\<lparr>priv := priv_out rl, clips := clips_out rl,
                     obuf := interleave_into (obuf cur) (olen cur) obufl' obufr' odoner,
                     olen := olen cur + (odonel + odoner)\<rparr>;
          right' = right\<lparr>priv := priv_out rr, clips := clips_out rr\<rparr>
      in flow_result (if rc rl \<noteq> SOX_SUCCESS then rc rl else rc rr)
           (idonel + idoner + odonel + odoner)
           (st\<lparr>efftab := (efftab st)[e - 1 := prev', e := cur'],
               efftabR := (efftabR st)[e := Some right'],
               obufl := obufl', obufr := obufr'\<rparr>))"

definition flow_effect ::
  "('p, 'c::len) effect_lib \<Rightarrow> nat \<Rightarrow> nat \<Rightarrow> ('p, 'c, 'f) sched
     \<Rightarrow> failure + status \<times> ('p, 'c, 'f) sched" where
  "flow_effect lib sox_bufsiz e st0 =
     (case poll_abort st0 of (user_abort, st) \<Rightarrow>
        if user_abort then Inr (SOX_EOF, st)
        else if odone (efftab st ! (e - 1)) = olen (efftab st ! (e - 1))
        then Inr (SOX_SUCCESS, st)
        else (case efftabR st ! e of
                None \<Rightarrow> flow_mono lib sox_bufsiz e st
              | Some right \<Rightarrow> flow_twin lib sox_bufsiz e right st))"

text \<open>\<open>drain_effect\<close>; the handler is offered the whole buffer, or half of it each.\<close>

definition drain_effect ::
  "('p, 'c::len) effect_lib \<Rightarrow> nat \<Rightarrow> nat \<Rightarrow> ('p, 'c, 'f) sched
     \<Rightarrow> status \<times> ('p, 'c, 'f) sched" where
  "drain_effect lib sox_bufsiz e st =
     (let cur = efftab st ! e in
      case efftabR st ! e of
        None \<Rightarrow>
          (let r = h_drain lib cur sox_bufsiz;
               cur' = cur\<lparr>priv := priv_out r, clips := clips_out r,
                          obuf := write_at (obuf cur) 0 (samples_out r),
                          olen := length (samples_out r), odone := 0\<rparr>
           in (rc r, st\<lparr>efftab := (efftab st)[e := cur']\<rparr>))
      | Some right \<Rightarrow>
          (let rl = h_drain lib cur (sox_bufsiz div 2);
               obufl' = write_at (obufl st) 0 (samples_out rl);
               olenl = length (samples_out rl);
               rr = h_drain lib right (sox_bufsiz div 2);
               obufr' = write_at (obufr st) 0 (samples_out rr);
               olenr = length (samples_out rr);
               cur' = cur\<lparr>priv := priv_out rl, clips := clips_out rl,
                          obuf := interleave_into (obuf cur) 0 obufl' obufr' olenr,
                          olen := olenl + olenr, odone := 0\<rparr>;
               right' = right\<lparr>priv := priv_out rr, clips := clips_out rr\<rparr>
           in (if rc rl = SOX_EOF \<or> rc rr = SOX_EOF then SOX_EOF else SOX_SUCCESS,
               st\<lparr>efftab := (efftab st)[e := cur'],
                   efftabR := (efftabR st)[e := Some right'],
                   obufl := obufl', obufr := obufr'\<rparr>)))"

subsection \<open>One pass of \<open>flow_effect_out\<close>\<close>
















subsection \<open>The buffer discipline\<close>

text \<open>
  A stage keeps \<open>odone \<le> olen \<le> sox_bufsiz\<close>. The invariant says so of every stage of
  the chain, and that the chain has its sentinel and lies inside the table.
\<close>

definition stage_ok :: "nat \<Rightarrow> ('p, 'c::len) sox_effect \<Rightarrow> bool" where
  "stage_ok sox_bufsiz s \<longleftrightarrow> odone s \<le> olen s \<and> olen s \<le> sox_bufsiz"

definition sched_inv :: "nat \<Rightarrow> ('p, 'c::len, 'f) sched \<Rightarrow> bool" where
  "sched_inv sox_bufsiz st \<longleftrightarrow>
     0 < neffects st \<and> neffects st \<le> length (efftab st)
     \<and> (\<forall>e<neffects st. stage_ok sox_bufsiz (efftab st ! e))"






subsection \<open>A chain of two stages with a full sentinel\<close>


definition sched_ex :: "(unit, 32, sox_ssample_t list) sched" where
  "sched_ex =
     \<lparr>efftab = [(effect_ex [] {})\<lparr>obuf := [1, 2, 3, 4], olen := 4\<rparr>,
                (effect_ex ''vol'' {})\<lparr>obuf := [0, 0, 0, 0]\<rparr>],
      efftabR = [None, None],
      neffects = 2,
      input_eff = 0, input_eff_eof = False, obufl = [0, 0], obufr = [0, 0],
      output_samples = 0, ofile = [], abort_after = None\<rparr>"


subsection \<open>What the two instances of a split effect are given and return\<close>

text \<open>The unread samples of stage \<open>k\<close>.\<close>

definition unread :: "('p, 'c::len, 'f) sched \<Rightarrow> nat \<Rightarrow> sox_ssample_t list" where
  "unread st k =
     take (olen (efftab st ! k) - odone (efftab st ! k))
       (drop (odone (efftab st ! k)) (obuf (efftab st ! k)))"

text \<open>
  The samples that the left and the right instance of stage \<open>e\<close> write when
  \<open>flow_effect\<close>, and when \<open>drain_effect\<close>, calls them in state \<open>st\<close>.
\<close>

definition flow_left ::
  "('p, 'c::len) effect_lib \<Rightarrow> nat \<Rightarrow> nat \<Rightarrow> ('p, 'c, 'f) sched \<Rightarrow> sox_ssample_t list" where
  "flow_left lib sox_bufsiz e st =
     samples_out (h_flow lib (efftab st ! e) (deinterleave_l (unread st (e - 1)))
                    ((sox_bufsiz - olen (efftab st ! e)) div 2))"

definition flow_right ::
  "('p, 'c::len) effect_lib \<Rightarrow> nat \<Rightarrow> nat \<Rightarrow> ('p, 'c) sox_effect \<Rightarrow> ('p, 'c, 'f) sched
     \<Rightarrow> sox_ssample_t list" where
  "flow_right lib sox_bufsiz e right st =
     samples_out (h_flow lib right (deinterleave_r (unread st (e - 1)))
                    ((sox_bufsiz - olen (efftab st ! e)) div 2))"

definition drain_left ::
  "('p, 'c::len) effect_lib \<Rightarrow> nat \<Rightarrow> nat \<Rightarrow> ('p, 'c, 'f) sched \<Rightarrow> sox_ssample_t list" where
  "drain_left lib sox_bufsiz e st =
     samples_out (h_drain lib (efftab st ! e) (sox_bufsiz div 2))"

definition drain_right ::
  "('p, 'c::len) effect_lib \<Rightarrow> nat \<Rightarrow> ('p, 'c) sox_effect \<Rightarrow> sox_ssample_t list" where
  "drain_right lib sox_bufsiz right = samples_out (h_drain lib right (sox_bufsiz div 2))"

subsection \<open>Split effects: a stereo chain, and instances that disagree\<close>

text \<open>
  The chain of \<open>sched_ex\<close> on a stereo stream, where \<open>vol\<close> has a right instance, and
  a library whose \<open>drain\<close> gives one held sample.
\<close>

definition sched_twin_ex :: "(unit, 32, sox_ssample_t list) sched" where
  "sched_twin_ex = sched_ex\<lparr>efftabR := [None, Some (effect_ex ''vol'' {})]\<rparr>"

definition lib_hold_ex :: "(unit, 32) effect_lib" where
  "lib_hold_ex = lib_ex\<lparr>h_drain := (\<lambda>e osamp.
        \<lparr>rc = SOX_EOF, priv_out = (), clips_out = clips e, isamp_out = 0,
         samples_out = take osamp [7]\<rparr>)\<rparr>"

text \<open>
  An effect whose private state is the number of samples it handles in one call, and a
  stereo chain in which its left instance handles two and its right instance one.
\<close>

definition lib_limit_ex :: "(nat, 32) effect_lib" where
  "lib_limit_ex =
     \<lparr>sox_geteffect = (\<lambda>nm. ({}, 0)),
      sox_updateeffect = (\<lambda>e combiner osignal m. (combiner, osignal, m)),
      h_getopts = (\<lambda>e args. (SOX_SUCCESS, priv e)),
      h_start = (\<lambda>e. (SOX_SUCCESS, priv e, clips e)),
      h_flow = (\<lambda>e ibuf osamp.
        \<lparr>rc = SOX_SUCCESS, priv_out = priv e, clips_out = clips e,
         isamp_out = min (length ibuf) (min osamp (priv e)),
         samples_out = take (min osamp (priv e)) ibuf\<rparr>),
      h_drain = (\<lambda>e osamp.
        \<lparr>rc = SOX_EOF, priv_out = priv e, clips_out = clips e, isamp_out = 0,
         samples_out = []\<rparr>),
      h_stop = (\<lambda>e. (priv e, clips e))\<rparr>"

definition effect_limit_ex :: "nat \<Rightarrow> (nat, 32) sox_effect" where
  "effect_limit_ex k =
     \<lparr>name = ''limit'', flags = {}, ininfo = cd_signal 2, outinfo = cd_signal 2, priv = k,
      obuf = [0, 0, 0, 0], odone = 0, olen = 0, clips = 0\<rparr>"

definition sched_limit_ex :: "(nat, 32, sox_ssample_t list) sched" where
  "sched_limit_ex =
     \<lparr>efftab = [(effect_limit_ex 0)\<lparr>name := [], obuf := [1, 2, 3, 4], olen := 4\<rparr>,
                effect_limit_ex 2],
      efftabR = [None, Some (effect_limit_ex 1)],
      neffects = 2,
      input_eff = 0, input_eff_eof = False, obufl = [0, 0], obufr = [0, 0],
      output_samples = 0, ofile = [], abort_after = None\<rparr>"

section \<open>The command line\<close>

text \<open>
  \<open>parse_options_and_filenames\<close> with \<open>doopts\<close> and \<open>parse_playlist\<close>, and the part of
  \<open>main\<close> that checks the files and opens the inputs. The text of a failure is the
  message of the source without the values that are formatted into it.
\<close>

datatype rg_mode = RG_off | RG_track | RG_album

datatype endian_option = ENDIAN_little | ENDIAN_big | ENDIAN_swap

datatype plot_t = sox_plot_off | sox_plot_octave | sox_plot_gnuplot

text \<open>
  The globals that the options set, and the table \<open>files\<close>, here the list of its
  \<open>file_count\<close> entries.
\<close>

record (overloaded) 'c globals =
  play :: bool
  rec :: bool
  combine_method :: combine_method
  uservolume :: bool
  replay_gain_mode :: rg_mode
  interactive :: bool
  repeatable_random :: bool
  show_progress :: sox_option_t
  sox_bufsiz :: int
  plot :: plot_t
  sox_output_verbosity_level :: nat
  files :: "'c file_info list"

definition MAX_INPUT_FILES :: nat where
  "MAX_INPUT_FILES = 32"

definition MAX_FILES :: nat where
  "MAX_FILES = MAX_INPUT_FILES + 2"

text \<open>
  What \<open>getopt_long\<close> makes of the arguments that come before the effects: an option
  with its argument as \<open>sscanf\<close> or the enumeration lookup reads it (\<open>None\<close> where that
  fails), or a word that is not an option. \<open>O_help\<close> is \<open>-h\<close> or an option that
  \<open>getopt_long\<close> does not know; \<open>O_null\<close> is \<open>-n\<close> or \<open>-e\<close>. A volume or compression
  of \<open>Some None\<close> is a number that reads as \<open>HUGE_VAL\<close>.
\<close>

datatype opt =
    O_buffer "int option"
  | O_combine "combine_method option"
  | O_comment_file "string option"
  | O_comment string
  | O_endian "endian_option option"
  | O_interactive
  | O_help_effect string
  | O_plot "plot_t option"
  | O_replay_gain "rg_mode option"
  | O_version
  | O_m | O_M | O_R | O_null | O_help
  | O_t string
  | O_r "int option"
  | O_v "real option option"
  | O_c "int option"
  | O_C "real option option"
  | O_1 | O_2 | O_3 | O_4 | O_8
  | O_s | O_u | O_f | O_a | O_D | O_i | O_o | O_g | O_U | O_A
  | O_L | O_B | O_x | O_X | O_N | O_S | O_q
  | O_V "int option option"

datatype arg = Opt opt | Word string

text \<open>
  What the program finds outside \<open>sox.c\<close>: the tests on names from the library, the
  entries that the reading loop of \<open>parse_playlist\<close> finds in a playlist file
  (\<open>None\<close> if it cannot be opened), the byte order of the machine, the default audio
  devices that \<open>set_device\<close> was compiled with (file type and name; \<open>None\<close> if there
  is none), whether \<open>lt_dlinit\<close> succeeds, \<open>sox_open_read\<close>, whether the handler of
  an open file is a device that is not phony, the gain that the search of
  \<open>set_replay_gain\<close> finds in a comment, and the values that the library gives
  \<open>sox_bufsiz\<close> and \<open>sox_output_verbosity_level\<close>.
\<close>

record (overloaded) 'c env =
  is_effect_name :: "string \<Rightarrow> bool"
  strcaseends :: "string \<Rightarrow> string \<Rightarrow> bool"
  is_uri :: "string \<Rightarrow> bool"
  read_playlist :: "string \<Rightarrow> string list option"
  SOX_IS_BIGENDIAN :: bool
  play_device :: "(string \<times> string) option"
  rec_device :: "(string \<times> string) option"
  find_formats_ok :: bool
  sox_open_read :: "string option \<Rightarrow> sox_signalinfo_t \<Rightarrow> string option \<Rightarrow> 'c sox_format option"
  is_real_device :: "'c sox_format \<Rightarrow> bool"
  find_replay_gain :: "rg_mode \<Rightarrow> string \<Rightarrow> real option"
  sox_bufsiz0 :: int
  sox_output_verbosity_level0 :: nat

definition is_playlist :: "'c::len env \<Rightarrow> string \<Rightarrow> bool" where
  "is_playlist env nm \<longleftrightarrow> strcaseends env nm ''.m3u'' \<or> strcaseends env nm ''.pls''"

definition new_file :: "'c::len file_info" where
  "new_file =
     \<lparr>filename = None, filetype = None,
      signal_fi = \<lparr>rate = 0, size_si = - 1, encoding = SOX_ENCODING_UNKNOWN, channels = 0,
                   compression = None, reverse_bytes = SOX_OPTION_DEFAULT,
                   reverse_nibbles = SOX_OPTION_DEFAULT, reverse_bits = SOX_OPTION_DEFAULT\<rparr>,
      volume = None, replay_gain = None, comment = None, volume_clips = 0, desc = None\<rparr>"

definition option_of_bool :: "bool \<Rightarrow> sox_option_t" where
  "option_of_bool b = (if b then SOX_OPTION_YES else SOX_OPTION_NO)"

text \<open>\<open>usage(message)\<close> ends the program, with code 1 if there is a message.\<close>

definition usage :: "string option \<Rightarrow> failure" where
  "usage message = (case message of None \<Rightarrow> Exit 0 [] | Some m \<Rightarrow> Exit 1 m)"

definition SOX_BUFMIN :: int where
  "SOX_BUFMIN = 16"

text \<open>
  One case of the \<open>switch\<close> in \<open>doopts\<close>. The Boolean of the result says that
  \<open>doopts\<close> returns here, with \<open>sox_true\<close>: the file is the null file.
\<close>

fun doopt ::
  "'c::len env \<Rightarrow> opt \<Rightarrow> 'c file_info \<Rightarrow> 'c globals
     \<Rightarrow> failure + bool \<times> 'c file_info \<times> 'c globals" where
  "doopt env (O_buffer i) f g =
     (case i of
        None \<Rightarrow> Inl (Exit 1 ''Buffer size must be > 16'')
      | Some n \<Rightarrow> if n \<le> SOX_BUFMIN then Inl (Exit 1 ''Buffer size must be > 16'')
                  else Inr (False, f, g\<lparr>sox_bufsiz := n\<rparr>))"
| "doopt env (O_combine m) f g =
     (case m of None \<Rightarrow> Inl (Exit 1 ''--combine: not one of the methods'')
      | Some c \<Rightarrow> Inr (False, f, g\<lparr>combine_method := c\<rparr>))"
| "doopt env (O_comment_file t) f g =
     (case t of None \<Rightarrow> Inl (Exit 1 ''Cannot open or read comment file'')
      | Some c \<Rightarrow> Inr (False, f\<lparr>comment := Some c\<rparr>, g))"
| "doopt env (O_comment c) f g = Inr (False, f\<lparr>comment := Some c\<rparr>, g)"
| "doopt env (O_endian en) f g =
     (case en of
        None \<Rightarrow> Inl (Exit 1 ''--endian: not one of the options'')
      | Some ENDIAN_little \<Rightarrow>
          Inr (False, f\<lparr>signal_fi := (signal_fi f)\<lparr>reverse_bytes :=
                 option_of_bool (SOX_IS_BIGENDIAN env)\<rparr>\<rparr>, g)
      | Some ENDIAN_big \<Rightarrow>
          Inr (False, f\<lparr>signal_fi := (signal_fi f)\<lparr>reverse_bytes :=
                 option_of_bool (\<not> SOX_IS_BIGENDIAN env)\<rparr>\<rparr>, g)
      | Some ENDIAN_swap \<Rightarrow>
          Inr (False, f\<lparr>signal_fi := (signal_fi f)\<lparr>reverse_bytes := SOX_OPTION_YES\<rparr>\<rparr>, g))"
| "doopt env O_interactive f g = Inr (False, f, g\<lparr>interactive := True\<rparr>)"
| "doopt env (O_help_effect n) f g = Inl (Exit 1 [])"
| "doopt env (O_plot pl) f g =
     (case pl of None \<Rightarrow> Inl (Exit 1 ''--plot: not one of the methods'')
      | Some m \<Rightarrow> Inr (False, f, g\<lparr>plot := m\<rparr>))"
| "doopt env (O_replay_gain rg) f g =
     (case rg of None \<Rightarrow> Inl (Exit 1 ''--replay-gain: not one of the modes'')
      | Some m \<Rightarrow> Inr (False, f, g\<lparr>replay_gain_mode := m\<rparr>))"
| "doopt env O_version f g = Inl (Exit 0 [])"
| "doopt env O_m f g = Inr (False, f, g\<lparr>combine_method := sox_mix\<rparr>)"
| "doopt env O_M f g = Inr (False, f, g\<lparr>combine_method := sox_merge\<rparr>)"
| "doopt env O_R f g = Inr (False, f, g\<lparr>repeatable_random := True\<rparr>)"
| "doopt env O_null f g = Inr (True, f, g)"
| "doopt env O_help f g = Inl (usage None)"
| "doopt env (O_t t) f g =
     Inr (False, f\<lparr>filetype := Some (if t \<noteq> [] \<and> hd t = CHR ''.'' then tl t else t)\<rparr>, g)"
| "doopt env (O_r i) f g =
     (case i of None \<Rightarrow> Inl (Exit 1 ''Rate value is not a positive integer'')
      | Some n \<Rightarrow> if n \<le> 0 then Inl (Exit 1 ''Rate value is not a positive integer'')
                  else Inr (False, f\<lparr>signal_fi := (signal_fi f)\<lparr>rate := nat n\<rparr>\<rparr>, g))"
| "doopt env (O_v v) f g =
     (case v of None \<Rightarrow> Inl (Exit 1 ''Volume value is not a number'')
      | Some x \<Rightarrow> Inr (False, f\<lparr>volume := x\<rparr>, g\<lparr>uservolume := True\<rparr>))"
| "doopt env (O_c i) f g =
     (case i of None \<Rightarrow> Inl (Exit 1 ''Channels value is not a positive integer'')
      | Some n \<Rightarrow> if n \<le> 0 then Inl (Exit 1 ''Channels value is not a positive integer'')
                  else Inr (False, f\<lparr>signal_fi := (signal_fi f)\<lparr>channels := nat n\<rparr>\<rparr>, g))"
| "doopt env (O_C c) f g =
     (case c of None \<Rightarrow> Inl (Exit 1 ''Compression value is not a number'')
      | Some x \<Rightarrow> Inr (False, f\<lparr>signal_fi := (signal_fi f)\<lparr>compression := x\<rparr>\<rparr>, g))"
| "doopt env O_1 f g = Inr (False, f\<lparr>signal_fi := (signal_fi f)\<lparr>size_si := 1\<rparr>\<rparr>, g)"
| "doopt env O_2 f g = Inr (False, f\<lparr>signal_fi := (signal_fi f)\<lparr>size_si := 2\<rparr>\<rparr>, g)"
| "doopt env O_3 f g = Inr (False, f\<lparr>signal_fi := (signal_fi f)\<lparr>size_si := 3\<rparr>\<rparr>, g)"
| "doopt env O_4 f g = Inr (False, f\<lparr>signal_fi := (signal_fi f)\<lparr>size_si := 4\<rparr>\<rparr>, g)"
| "doopt env O_8 f g = Inr (False, f\<lparr>signal_fi := (signal_fi f)\<lparr>size_si := 8\<rparr>\<rparr>, g)"
| "doopt env O_s f g =
     Inr (False, f\<lparr>signal_fi := (signal_fi f)\<lparr>encoding := SOX_ENCODING_SIGN2\<rparr>\<rparr>, g)"
| "doopt env O_u f g =
     Inr (False, f\<lparr>signal_fi := (signal_fi f)\<lparr>encoding := SOX_ENCODING_UNSIGNED\<rparr>\<rparr>, g)"
| "doopt env O_f f g =
     Inr (False, f\<lparr>signal_fi := (signal_fi f)\<lparr>encoding := SOX_ENCODING_FLOAT\<rparr>\<rparr>, g)"
| "doopt env O_a f g =
     Inr (False, f\<lparr>signal_fi := (signal_fi f)\<lparr>encoding := SOX_ENCODING_ADPCM\<rparr>\<rparr>, g)"
| "doopt env O_D f g =
     Inr (False, f\<lparr>signal_fi := (signal_fi f)\<lparr>encoding := SOX_ENCODING_MS_ADPCM\<rparr>\<rparr>, g)"
| "doopt env O_i f g =
     Inr (False, f\<lparr>signal_fi := (signal_fi f)\<lparr>encoding := SOX_ENCODING_IMA_ADPCM\<rparr>\<rparr>, g)"
| "doopt env O_o f g =
     Inr (False, f\<lparr>signal_fi := (signal_fi f)\<lparr>encoding := SOX_ENCODING_OKI_ADPCM\<rparr>\<rparr>, g)"
| "doopt env O_g f g =
     Inr (False, f\<lparr>signal_fi := (signal_fi f)\<lparr>encoding := SOX_ENCODING_GSM\<rparr>\<rparr>, g)"
| "doopt env O_U f g =
     Inr (False, f\<lparr>signal_fi := (signal_fi f)\<lparr>encoding := SOX_ENCODING_ULAW,
            size_si := (if size_si (signal_fi f) = - 1 then 1 else size_si (signal_fi f))\<rparr>\<rparr>, g)"
| "doopt env O_A f g =
     Inr (False, f\<lparr>signal_fi := (signal_fi f)\<lparr>encoding := SOX_ENCODING_ALAW,
            size_si := (if size_si (signal_fi f) = - 1 then 1 else size_si (signal_fi f))\<rparr>\<rparr>, g)"
| "doopt env O_L f g =
     Inr (False, f\<lparr>signal_fi := (signal_fi f)\<lparr>reverse_bytes :=
            option_of_bool (SOX_IS_BIGENDIAN env)\<rparr>\<rparr>, g)"
| "doopt env O_B f g =
     Inr (False, f\<lparr>signal_fi := (signal_fi f)\<lparr>reverse_bytes :=
            option_of_bool (\<not> SOX_IS_BIGENDIAN env)\<rparr>\<rparr>, g)"
| "doopt env O_x f g =
     Inr (False, f\<lparr>signal_fi := (signal_fi f)\<lparr>reverse_bytes := SOX_OPTION_YES\<rparr>\<rparr>, g)"
| "doopt env O_X f g =
     Inr (False, f\<lparr>signal_fi := (signal_fi f)\<lparr>reverse_bits := SOX_OPTION_YES\<rparr>\<rparr>, g)"
| "doopt env O_N f g =
     Inr (False, f\<lparr>signal_fi := (signal_fi f)\<lparr>reverse_nibbles := SOX_OPTION_YES\<rparr>\<rparr>, g)"
| "doopt env O_S f g = Inr (False, f, g\<lparr>show_progress := SOX_OPTION_YES\<rparr>)"
| "doopt env O_q f g = Inr (False, f, g\<lparr>show_progress := SOX_OPTION_NO\<rparr>)"
| "doopt env (O_V v) f g =
     (case v of
        None \<Rightarrow> Inr (False, f, g\<lparr>sox_output_verbosity_level := sox_output_verbosity_level g + 1\<rparr>)
      | Some None \<Rightarrow> Inl (Exit 1 ''Verbosity value is not a non-negative integer'')
      | Some (Some n) \<Rightarrow>
          if n < 0 then Inl (Exit 1 ''Verbosity value is not a non-negative integer'')
          else Inr (False, f, g\<lparr>sox_output_verbosity_level := nat n\<rparr>))"

text \<open>
  \<open>doopts\<close>: options are taken until one makes it return or the next argument is not
  an option. The result holds what is left of the arguments.
\<close>

fun doopts ::
  "'c::len env \<Rightarrow> 'c file_info \<Rightarrow> 'c globals \<Rightarrow> arg list
     \<Rightarrow> failure + bool \<times> 'c file_info \<times> 'c globals \<times> arg list" where
  "doopts env f g [] = Inr (False, f, g, [])"
| "doopts env f g (Word w # rest) = Inr (False, f, g, Word w # rest)"
| "doopts env f g (Opt k # rest) =
     (case doopt env k f g of
        Inl x \<Rightarrow> Inl x
      | Inr (ret, f1, g1) \<Rightarrow> if ret then Inr (True, f1, g1, rest) else doopts env f1 g1 rest)"

text \<open>
  The directory part of a playlist's name: what comes before its last slash, or nothing.
\<close>

definition dirname_of :: "string \<Rightarrow> string" where
  "dirname_of s = rev (tl (dropWhile (\<lambda>c. c \<noteq> CHR ''/'') (rev s)))"

definition too_many_filenames :: failure where
  "too_many_filenames =
     Exit 1 ''Too many filenames; maximum is 32 input files and 1 output file''"

text \<open>
  \<open>parse_playlist\<close>, and its loop over the entries of one playlist. A playlist may name
  itself, and then the recursion of the source does not end; the functions are given
  fuel, and \<open>None\<close> is a run that outlasts it. An entry is a copy of \<open>f0\<close> with the
  entry's name, which a relative entry takes from the playlist's directory.
\<close>

fun parse_playlist ::
  "nat \<Rightarrow> 'c::len env \<Rightarrow> 'c file_info \<Rightarrow> string \<Rightarrow> 'c file_info list
     \<Rightarrow> (failure + 'c file_info list) option"
and playlist_entries ::
  "nat \<Rightarrow> 'c::len env \<Rightarrow> 'c file_info \<Rightarrow> string \<Rightarrow> string list \<Rightarrow> 'c file_info list
     \<Rightarrow> (failure + 'c file_info list) option" where
  "parse_playlist 0 env f0 pl fs = None"
| "parse_playlist (Suc fuel) env f0 pl fs =
     (case read_playlist env pl of
        None \<Rightarrow> Some (Inl (Exit 1 ''Can't open playlist file''))
      | Some ids \<Rightarrow> playlist_entries fuel env f0 (dirname_of pl) ids fs)"
| "playlist_entries fuel env f0 dir [] fs = Some (Inr fs)"
| "playlist_entries fuel env f0 dir (ident # ids) fs =
     (if ident = [] then playlist_entries fuel env f0 dir ids fs
      else if length fs \<ge> MAX_FILES then Some (Inl too_many_filenames)
      else
        (let nm = (if dir = [] \<or> is_uri env ident \<or> hd ident = CHR ''/'' then ident
                   else dir @ ''/'' @ ident);
             f = f0\<lparr>filename := Some nm\<rparr>
         in if is_playlist env nm then
              (case parse_playlist fuel env f nm fs of
                 None \<Rightarrow> None
               | Some (Inl x) \<Rightarrow> Some (Inl x)
               | Some (Inr fs1) \<Rightarrow> playlist_entries fuel env f0 dir ids fs1)
            else playlist_entries fuel env f0 dir ids (fs @ [f])))"

text \<open>
  \<open>doopts\<close> takes at least the option it starts with and never adds an argument.
\<close>

lemma doopts_length:
  "doopts env f g args = Inr (ret, f1, g1, rest) \<Longrightarrow> length rest \<le> length args"
proof (induction args arbitrary: f g)
  case Nil
  then show ?case by simp
next
  case (Cons a args)
  show ?case
  proof (cases a)
    case (Word w)
    with Cons.prems show ?thesis by auto
  next
    case (Opt k)
    show ?thesis
    proof (cases "doopt env k f g")
      case (Inl x)
      with Opt Cons.prems show ?thesis by simp
    next
      case (Inr t)
      obtain b f2 g2 where t: "t = (b, f2, g2)" by (cases t)
      show ?thesis
      proof (cases b)
        case True
        with Opt Inr t Cons.prems show ?thesis by auto
      next
        case False
        with Opt Inr t Cons.prems have "doopts env f2 g2 args = Inr (ret, f1, g1, rest)"
          by simp
        from Cons.IH [OF this] show ?thesis by simp
      qed
    qed
  qed
qed

lemma doopts_null_length:
  "doopts env f g args = Inr (True, f1, g1, rest) \<Longrightarrow> length rest < length args"
proof (induction args arbitrary: f g)
  case Nil
  then show ?case by simp
next
  case (Cons a args)
  show ?case
  proof (cases a)
    case (Word w)
    with Cons.prems show ?thesis by auto
  next
    case (Opt k)
    show ?thesis
    proof (cases "doopt env k f g")
      case (Inl x)
      with Opt Cons.prems show ?thesis by simp
    next
      case (Inr t)
      obtain b f2 g2 where t: "t = (b, f2, g2)" by (cases t)
      show ?thesis
      proof (cases b)
        case True
        with Opt Inr t Cons.prems show ?thesis by auto
      next
        case False
        with Opt Inr t Cons.prems have "doopts env f2 g2 args = Inr (True, f1, g1, rest)"
          by simp
        from Cons.IH [OF this] show ?thesis by simp
      qed
    qed
  qed
qed

text \<open>
  The loop of \<open>parse_options_and_filenames\<close>. The result holds the globals, the
  arguments that are left for the effects, and \<open>f\<close> as the loop leaves it: \<open>Some\<close> after
  the \<open>break\<close>, where options were read and no file name followed. An option is never
  the name of an effect.
\<close>

function parse_files ::
  "nat \<Rightarrow> 'c::len env \<Rightarrow> 'c globals \<Rightarrow> arg list
     \<Rightarrow> (failure + 'c globals \<times> arg list \<times> 'c file_info option) option" where
  "parse_files fuel env g [] = Some (Inr (g, [], None))"
| "parse_files fuel env g (a # args) =
     (if (case a of Word w \<Rightarrow> is_effect_name env w | Opt k \<Rightarrow> False)
      then Some (Inr (g, a # args, None))
      else if length (files g) \<ge> MAX_FILES then Some (Inl too_many_filenames)
      else
        (case doopts env new_file g (a # args) of
           Inl x \<Rightarrow> Some (Inl x)
         | Inr (is_null, f, g1, rest) \<Rightarrow>
             if is_null
             then parse_files fuel env
                    (g1\<lparr>files := files g1 @ [f\<lparr>filetype := Some ''null'',
                                                filename := Some ''-n''\<rparr>]\<rparr>) rest
             else
               (case rest of
                  Word w # rest1 \<Rightarrow>
                    if is_effect_name env w then Some (Inr (g1, rest, Some f))
                    else if is_playlist env w then
                      (case parse_playlist fuel env f w (files g1) of
                         None \<Rightarrow> None
                       | Some (Inl x) \<Rightarrow> Some (Inl x)
                       | Some (Inr fs) \<Rightarrow> parse_files fuel env (g1\<lparr>files := fs\<rparr>) rest1)
                    else parse_files fuel env
                           (g1\<lparr>files := files g1 @ [f\<lparr>filename := Some w\<rparr>]\<rparr>) rest1
                | _ \<Rightarrow> Some (Inr (g1, rest, Some f)))))"
  by pat_completeness auto
termination
proof (relation "measure (\<lambda>(fuel, env, g, args). length args)", goal_cases)
  case 1
  show ?case by simp
next
  case (2 fuel env g a args x2 x y xa ya xb yb)
  then show ?case using doopts_null_length [of env new_file g "a # args" xa xb yb] by simp
next
  case (3 fuel env g a args x2 x y xa ya xb yb x21 x22 x2a)
  then show ?case using doopts_length [of env new_file g "a # args" x xa xb yb] by simp
next
  case (4 fuel env g a args x2 x y xa ya xb yb x21 x22 x2a)
  then show ?case using doopts_length [of env new_file g "a # args" x xa xb yb] by simp
qed

text \<open>
  \<open>set_device\<close>: the type and the name of the default audio device, or the exit where
  none is configured.
\<close>

definition set_device :: "'c::len env \<Rightarrow> 'c file_info \<Rightarrow> bool \<Rightarrow> failure + 'c file_info" where
  "set_device env f recording =
     (case (if recording then rec_device env else play_device env) of
        None \<Rightarrow> Inl (Exit 1 ''Sorry, there is no default audio device configured'')
      | Some (t, n) \<Rightarrow> Inr (f\<lparr>filetype := Some t, filename := Some n\<rparr>))"

text \<open>
  What \<open>parse_options_and_filenames\<close> does after its loop. For \<open>play\<close> the output
  device is appended, with the options that were read for it; otherwise options that
  no file name follows are refused. For \<open>rec\<close> the input device becomes the first file.
\<close>

definition add_play_device ::
  "'c::len env \<Rightarrow> 'c globals \<Rightarrow> 'c file_info option \<Rightarrow> failure + 'c globals" where
  "add_play_device env g f =
     (if play g then
        (if length (files g) \<ge> MAX_FILES then Inl too_many_filenames
         else
           (case set_device env (case f of None \<Rightarrow> new_file | Some f1 \<Rightarrow> f1) False of
              Inl x \<Rightarrow> Inl x
            | Inr f2 \<Rightarrow> Inr (g\<lparr>files := files g @ [f2]\<rparr>)))
      else
        (case f of
           None \<Rightarrow> Inr g
         | Some f1 \<Rightarrow> if f1 \<noteq> new_file then Inl (usage (Some ''missing filename''))
                      else Inr g))"

definition add_rec_device :: "'c::len env \<Rightarrow> 'c globals \<Rightarrow> failure + 'c globals" where
  "add_rec_device env g =
     (if rec g then
        (if length (files g) \<ge> MAX_FILES then Inl too_many_filenames
         else
           (case set_device env new_file True of
              Inl x \<Rightarrow> Inl x
            | Inr f \<Rightarrow> Inr (g\<lparr>files := f # files g\<rparr>)))
      else Inr g)"

definition parse_options_and_filenames ::
  "nat \<Rightarrow> 'c::len env \<Rightarrow> 'c globals \<Rightarrow> arg list
     \<Rightarrow> (failure + 'c globals \<times> arg list) option" where
  "parse_options_and_filenames fuel env g args =
     (case parse_files fuel env g args of
        None \<Rightarrow> None
      | Some (Inl x) \<Rightarrow> Some (Inl x)
      | Some (Inr (g1, rest, f)) \<Rightarrow>
          Some (bind_exit (add_play_device env g1 f)
                  (\<lambda>g2. bind_exit (add_rec_device env g2) (\<lambda>g3. Inr (g3, rest)))))"

subsection \<open>Command lines of the usual form\<close>

text \<open>
  The usage summary gives the form \<open>[[fopts] infile]... [fopts] outfile [effect ...]\<close>.
  A file is written here as its options and its name, \<open>None\<close> for the null file
  \<open>-n\<close>; \<open>command_line\<close> is the argument list of files followed by effects.
\<close>

definition file_args :: "opt list \<times> string option \<Rightarrow> arg list" where
  "file_args = (\<lambda>(os, nm). map Opt os @ [case nm of Some w \<Rightarrow> Word w | None \<Rightarrow> Opt O_null])"

definition command_line :: "(opt list \<times> string option) list \<Rightarrow> arg list \<Rightarrow> arg list" where
  "command_line specs effects = concat (map file_args specs) @ effects"

text \<open>Whether \<open>-v\<close> is among the options of a file.\<close>

fun is_v :: "opt \<Rightarrow> bool" where
  "is_v (O_v v) = True"
| "is_v k = False"

definition given_v :: "opt list \<Rightarrow> bool" where
  "given_v os = list_ex is_v os"

text \<open>
  The options of a file end at its name, which is a file name and not a playlist; and
  the effects start with the name of an effect.
\<close>

definition plain_file :: "'c::len env \<Rightarrow> opt list \<times> string option \<Rightarrow> bool" where
  "plain_file env = (\<lambda>(os, nm).
     O_null \<notin> set os
     \<and> (case nm of Some w \<Rightarrow> \<not> is_effect_name env w \<and> \<not> is_playlist env w | None \<Rightarrow> True))"

definition effects_part :: "'c::len env \<Rightarrow> arg list \<Rightarrow> bool" where
  "effects_part env effects =
     (case effects of [] \<Rightarrow> True | Word w # es \<Rightarrow> is_effect_name env w | Opt k # es \<Rightarrow> False)"

section \<open>The start of the program\<close>

definition ends_with :: "string \<Rightarrow> string \<Rightarrow> bool" where
  "ends_with s suffix \<longleftrightarrow>
     length s \<ge> length suffix \<and> drop (length s - length suffix) s = suffix"

text \<open>
  The globals as \<open>main\<close> has them when it calls \<open>parse_options_and_filenames\<close>: their
  initial values, and what the name of the program (\<open>argv[0]\<close>) sets.
\<close>

definition initial_globals :: "'c::len env \<Rightarrow> 'c globals" where
  "initial_globals env =
     \<lparr>play = False, rec = False, combine_method = sox_concatenate, uservolume = False,
      replay_gain_mode = RG_off, interactive = False, repeatable_random = False,
      show_progress = SOX_OPTION_DEFAULT, sox_bufsiz = sox_bufsiz0 env, plot = sox_plot_off,
      sox_output_verbosity_level = sox_output_verbosity_level0 env, files = []\<rparr>"

definition startup :: "'c::len env \<Rightarrow> string \<Rightarrow> 'c globals" where
  "startup env myname =
     (if ends_with myname ''play''
      then (initial_globals env)\<lparr>play := True, replay_gain_mode := RG_track,
                                  combine_method := sox_sequence\<rparr>
      else if ends_with myname ''rec'' then (initial_globals env)\<lparr>rec := True\<rparr>
      else initial_globals env)"

definition input_count :: "'c::len globals \<Rightarrow> nat" where
  "input_count g = (if length (files g) \<noteq> 0 then length (files g) - 1 else 0)"

definition required_inputs :: "combine_method \<Rightarrow> nat" where
  "required_inputs m = (if m = sox_sequence \<or> m = sox_concatenate then 1 else 2)"

text \<open>\<open>ofile\<close>, the last entry of \<open>files\<close>.\<close>

definition output_file :: "'c::len globals \<Rightarrow> 'c file_info" where
  "output_file g = files g ! (length (files g) - 1)"

text \<open>The check for options that only an output file can have, over the input files.\<close>

fun misplaced :: "'c::len file_info list \<Rightarrow> failure option" where
  "misplaced [] = None"
| "misplaced (f # fs) =
     (if compression (signal_fi f) \<noteq> None
      then Some (usage (Some ''A compression factor can only be given for an output file''))
      else if comment f \<noteq> None
      then Some (usage (Some ''A comment can only be given for an output file''))
      else misplaced fs)"

definition set_replay_gain :: "'c::len env \<Rightarrow> rg_mode \<Rightarrow> string \<Rightarrow> 'c file_info \<Rightarrow> 'c file_info" where
  "set_replay_gain env rg cmt f =
     (if rg \<noteq> RG_off
      then (case find_replay_gain env rg cmt of
              None \<Rightarrow> f
            | Some x \<Rightarrow> f\<lparr>replay_gain := Some x\<rparr>)
      else f)"

text \<open>
  What the loop of \<open>main\<close> that opens the inputs does to \<open>files[j]\<close> before the call
  of \<open>sox_open_read\<close>: the volume for mixing, and for the recording device the rate
  and the number of channels of the next file, which is open by then if it is an input
  (the inputs are opened last to first).
\<close>

definition prepare_input :: "'c::len globals \<Rightarrow> nat \<Rightarrow> 'c file_info" where
  "prepare_input g j =
     (let f = files g ! j;
          f1 = (if combine_method g = sox_mix \<and> \<not> uservolume g
                then f\<lparr>volume := Some (1 / real (input_count g))\<rparr> else f)
      in if rec g \<and> j = 0 then
           (let src = (if input_count g > 1
                       then (case desc (files g ! 1) of
                               Some d \<Rightarrow> signal d
                             | None \<Rightarrow> signal_fi (files g ! 1))
                       else signal_fi (files g ! 1))
            in f1\<lparr>signal_fi := (signal_fi f1)\<lparr>rate := rate src, channels := channels src\<rparr>\<rparr>)
         else f1)"

text \<open>
  The loop that opens the inputs, from \<open>files[n - 1]\<close> down to \<open>files[0]\<close>. With the
  outcome comes the list of the names that \<open>sox_open_read\<close> was called with, in the
  order of the calls.
\<close>

fun open_inputs ::
  "'c::len env \<Rightarrow> nat \<Rightarrow> 'c globals \<Rightarrow> string option list
     \<Rightarrow> string option list \<times> (failure + 'c globals)" where
  "open_inputs env 0 g tr = (tr, Inr g)"
| "open_inputs env (Suc j) g tr =
     (let f = prepare_input g j
      in case sox_open_read env (filename f) (signal_fi f) (filetype f) of
           None \<Rightarrow> (tr @ [filename f], Inl (Exit 2 []))
         | Some d \<Rightarrow>
             (let f1 = f\<lparr>desc := Some d\<rparr>;
                  g1 = (if show_progress g = SOX_OPTION_DEFAULT \<and> is_real_device env d
                        then g\<lparr>show_progress := SOX_OPTION_YES\<rparr> else g);
                  f2 = (case comment_ft d of
                          None \<Rightarrow> f1
                        | Some c \<Rightarrow> set_replay_gain env (replay_gain_mode g1) c f1)
              in open_inputs env j (g1\<lparr>files := (files g1)[j := f2]\<rparr>) (tr @ [filename f])))"

text \<open>
  \<open>main\<close>, up to its call of \<open>parse_effects\<close>: the command line is read, the plug-ins
  are loaded, the number of inputs and the options of the files are checked, and the
  inputs are opened. The result holds the names that were opened, and either the exit
  or the globals and the arguments that are left for the effects.
\<close>

definition main ::
  "nat \<Rightarrow> 'c::len env \<Rightarrow> string \<Rightarrow> arg list
     \<Rightarrow> (string option list \<times> (failure + 'c globals \<times> arg list)) option" where
  "main fuel env myname args =
     (case parse_options_and_filenames fuel env (startup env myname) args of
        None \<Rightarrow> None
      | Some (Inl x) \<Rightarrow> Some ([], Inl x)
      | Some (Inr (g, rest)) \<Rightarrow>
          Some
            (if \<not> find_formats_ok env then ([], Inl (Exit 1 ''lt_dlinit failed''))
             else if input_count g < required_inputs (combine_method g)
             then ([], Inl (usage (Some ''Not enough input filenames specified'')))
             else
               (case misplaced (take (input_count g) (files g)) of
                  Some x \<Rightarrow> ([], Inl x)
                | None \<Rightarrow>
                    if volume (output_file g) \<noteq> None
                    then ([], Inl (usage (Some ''-v can only be given for an input file'')))
                    else
                      (case open_inputs env (input_count g) g [] of
                         (tr, Inl x) \<Rightarrow> (tr, Inl x)
                       | (tr, Inr g1) \<Rightarrow> (tr, Inr (g1, rest))))))"

text \<open>
  \<open>progress_to_file\<close>, which \<open>process\<close> calls for every input before it is read: the
  volume becomes the multiplier that \<open>balance_input\<close> uses, 1 if none was set, times
  \<open>pow(10, replay_gain / 20)\<close> if the file has a replay gain.
\<close>

definition progress_to_file :: "'c::len file_info \<Rightarrow> 'c file_info" where
  "progress_to_file f =
     (let v = (case volume f of None \<Rightarrow> 1 | Some x \<Rightarrow> x)
      in f\<lparr>volume := Some (case replay_gain f of
                                None \<Rightarrow> v
                              | Some rg \<Rightarrow> v * 10 powr (rg / 20))\<rparr>)"

section \<open>An example environment\<close>

text \<open>
  A machine with ALSA, where every file opens with the signal it was asked for (CD
  format where nothing was asked), without a comment; \<open>vol\<close> and \<open>trim\<close> are the
  effects.
\<close>

definition lower :: "char \<Rightarrow> char" where
  "lower c = (let n = (of_char c :: nat) in if 65 \<le> n \<and> n \<le> 90 then char_of (n + 32) else c)"

definition open_ex :: "string option \<Rightarrow> sox_signalinfo_t \<Rightarrow> string option \<Rightarrow> 32 sox_format option" where
  "open_ex nm si ty =
     Some \<lparr>signal = si\<lparr>rate := (if rate si = 0 then 44100 else rate si),
                         channels := (if channels si = 0 then 2 else channels si)\<rparr>,
           length_ft = 0, clips_ft = 0, comment_ft = None\<rparr>"

definition env_ex :: "32 env" where
  "env_ex =
     \<lparr>is_effect_name = (\<lambda>w. w = ''vol'' \<or> w = ''trim''),
      strcaseends = (\<lambda>s e. ends_with (map lower s) (map lower e)),
      is_uri = (\<lambda>w. False),
      read_playlist = (\<lambda>w. None),
      SOX_IS_BIGENDIAN = False,
      play_device = Some (''alsa'', ''default''),
      rec_device = Some (''alsa'', ''default''),
      find_formats_ok = True,
      sox_open_read = open_ex,
      is_real_device = (\<lambda>d. False),
      find_replay_gain = (\<lambda>rg c. None),
      sox_bufsiz0 = 8192,
      sox_output_verbosity_level0 = 2\<rparr>"

definition names_ex :: "string list" where
  "names_ex = replicate 33 ''in.wav'' @ [''out.wav'']"

section \<open>Properties of the mixing loop\<close>




lemma contributors_Cons:
  "contributors (f # fs) ws s =
     (if ws < ilen f \<and> s < nchannels f then ibuf f ! (ws * nchannels f + s) # contributors fs ws s
      else contributors fs ws s)"
  by (simp add: contributors_def)















section \<open>Properties of the length hint\<close>

lemma scan_known_length:
  "known_length (fold (scan_input c) ds t)
     = (known_length t \<and> (\<forall>d\<in>set ds. length_ft d \<noteq> 0))"
  by (induction ds arbitrary: t) (auto simp add: scan_input_def)

lemma scan_olen_concatenate:
  "olen_hint (fold (scan_input sox_concatenate) ds t)
     = olen_hint t + sum_list (map wide_length ds)"
  by (induction ds arbitrary: t) (simp_all add: scan_input_def wide_length_def add.assoc)

lemma Max_insert_max:
  fixes a :: "'a::linorder"
  assumes "finite S"
  shows "Max (insert (max a b) S) = Max (insert a (insert b S))"
proof (cases "S = {}")
  case True
  then show ?thesis by (simp add: max.commute)
next
  case False
  with assms show ?thesis by (simp add: max.assoc)
qed

lemma scan_olen_max:
  "c \<noteq> sox_concatenate \<Longrightarrow>
   olen_hint (fold (scan_input c) ds t) = Max (insert (olen_hint t) (set (map wide_length ds)))"
proof (induction ds arbitrary: t)
  case Nil
  then show ?case by simp
next
  case (Cons d ds)
  have "olen_hint (scan_input c d t) = max (olen_hint t) (wide_length d)"
    using Cons.prems by (simp add: scan_input_def wide_length_def)
  with Cons show ?case
    by (simp add: Max_insert_max)
qed

text \<open>
  A sum in \<open>sox_size_t\<close> is the sum of the numbers modulo \<open>2 ^ N\<close>, \<open>N\<close> the width of
  the type, and a maximum in \<open>sox_size_t\<close> is the maximum of the numbers.
\<close>

lemma unat_sum_list_mod:
  "unat (sum_list ws :: 'c::len word) = sum_list (map unat ws) mod 2 ^ LENGTH('c)"
proof (induction ws)
  case Nil
  show ?case by simp
next
  case (Cons w ws)
  have "unat (w + sum_list ws) = (unat w + unat (sum_list ws)) mod 2 ^ LENGTH('c)"
    by (simp add: unat_word_ariths)
  also have "\<dots> = (unat w + sum_list (map unat ws) mod 2 ^ LENGTH('c)) mod 2 ^ LENGTH('c)"
    by (simp only: Cons.IH)
  also have "\<dots> = (unat w + sum_list (map unat ws)) mod 2 ^ LENGTH('c)"
    by (simp add: mod_add_right_eq)
  finally show ?case by simp
qed

lemma unat_Max:
  fixes S :: "'c::len word set"
  assumes "finite S" and "S \<noteq> {}"
  shows "unat (Max S) = Max (unat ` S)"
proof -
  have "mono (unat :: 'c word \<Rightarrow> nat)"
    by (rule monoI) (simp add: word_le_nat_alt)
  from mono_Max_commute [OF this assms] show ?thesis .
qed

lemma scan_user_flags:
  "fold (\<lambda>fl k. k \<and> SOX_EFF_LENGTH \<notin> fl) fls k
     = (k \<and> (\<forall>fl\<in>set fls. SOX_EFF_LENGTH \<notin> fl))"
  by (induction fls arbitrary: k) auto

text \<open>
  C3 (as the source has it). When \<open>process\<close> reaches \<open>sox_open_write\<close>, the length
  it passes is 0 in sequence mode, 0 when a user effect has the flag \<open>SOX_EFF_LENGTH\<close>
  or an input has length 0, and otherwise, when concatenating, the sum of the inputs'
  lengths in wide samples modulo \<open>2 ^ N\<close>, \<open>N\<close> the width of \<open>sox_size_t\<close>, and,
  when mixing or merging, their maximum. The second premise is what makes the divisions
  of the source defined: an open input has at least one channel.
\<close>

theorem process_length_hint_value:
  assumes "process_length_hint combine descs user_flags = Inr (hint :: 'c::len word)"
      and "\<forall>d\<in>set descs. channels (signal d) \<noteq> 0"
  shows "unat hint =
     (if combine = sox_sequence \<or> (\<exists>fl\<in>set user_flags. SOX_EFF_LENGTH \<in> fl)
          \<or> (\<exists>d\<in>set descs. length_ft d = 0)
      then 0
      else if combine = sox_concatenate
      then sum_list (map (\<lambda>d. unat (wide_length d)) descs) mod 2 ^ LENGTH('c)
      else Max (insert 0 (set (map (\<lambda>d. unat (wide_length d)) descs))))"
proof (cases "combine = sox_sequence")
  case True
  with assms(1) show ?thesis
    by (auto simp add: process_length_hint_def init_totals_def scan_user_flags)
next
  case False
  define t where "t = fold (scan_input combine) descs (init_totals combine :: 'c input_totals)"
  have k: "known_length t = (\<forall>d\<in>set descs. length_ft d \<noteq> 0)"
    using False by (simp add: t_def scan_known_length init_totals_def)
  have o: "olen_hint t = (if combine = sox_concatenate then sum_list (map wide_length descs)
      else Max (insert 0 (set (map wide_length descs))))"
    by (simp add: t_def scan_olen_concatenate scan_olen_max  init_totals_def)
  have s: "unat (sum_list (map wide_length descs))
      = sum_list (map (\<lambda>d. unat (wide_length d)) descs) mod 2 ^ LENGTH('c)"
    by (simp add: unat_sum_list_mod comp_def)
  have "unat (Max (insert 0 (set (map wide_length descs))))
      = Max (unat ` insert 0 (set (map wide_length descs)))"
    by (rule unat_Max) simp_all
  then have m: "unat (Max (insert 0 (set (map wide_length descs))))
      = Max (insert 0 (set (map (\<lambda>d. unat (wide_length d)) descs)))"
    by (simp add: image_image)
  have u: "unat (olen_hint t) =
      (if combine = sox_concatenate
       then sum_list (map (\<lambda>d. unat (wide_length d)) descs) mod 2 ^ LENGTH('c)
       else Max (insert 0 (set (map (\<lambda>d. unat (wide_length d)) descs))))"
    unfolding o using s m by simp
  define known where
    "known = fold (\<lambda>fl k. k \<and> SOX_EFF_LENGTH \<notin> fl) user_flags (known_length t)"
  have kn: "known = (known_length t \<and> (\<forall>fl\<in>set user_flags. SOX_EFF_LENGTH \<notin> fl))"
    unfolding known_def by (rule scan_user_flags)
  have "hint = (if \<not> known then 0 else olen_hint t)"
    using assms(1) False
    by (simp add: process_length_hint_def t_def [symmetric] Let_def known_def split: if_splits)
  then have "unat hint = (if \<not> known then 0 else unat (olen_hint t))"
    by simp
  then show ?thesis using False unfolding kn k u by auto
qed

text \<open>
  Two mono inputs of 4294967295 and 2 samples, concatenated, with 32 bits for
  \<open>sox_size_t\<close>: the hint is 1.
\<close>

theorem process_length_hint_value_witness:
  "process_length_hint sox_concatenate [long_desc1, long_desc2] [{}] = Inr (1 :: 32 word)
   \<and> unat (1 :: 32 word) = (4294967295 + 2) mod 2 ^ 32"
proof -
  have r: "process_length_hint sox_concatenate [long_desc1, long_desc2] [{}] = Inr 1"
    by (simp add: process_length_hint_def init_totals_def scan_input_def Let_def
        long_desc1_def long_desc2_def cd_signal_def)
  have c: "\<forall>d\<in>set [long_desc1, long_desc2]. channels (signal d) \<noteq> 0"
    by (simp add: long_desc1_def long_desc2_def cd_signal_def)
  have l: "\<not> (\<exists>d\<in>set [long_desc1, long_desc2]. length_ft d = 0)"
    by (simp add: long_desc1_def long_desc2_def)
  have w: "unat (wide_length long_desc1) = 4294967295" "unat (wide_length long_desc2) = 2"
    by (simp_all add: wide_length_def long_desc1_def long_desc2_def cd_signal_def)
  from process_length_hint_value [OF r c] l w
  have "unat (1 :: 32 word) = (4294967295 + 2) mod 2 ^ 32"
    by simp
  with r show ?thesis by simp
qed

text \<open>
  The claim C3 as stated, the sum of the lengths, fails for these two inputs: both
  lengths are known, no effect changes the length, the lengths add up to 4294967297
  wide samples, and the hint is 1.
\<close>

theorem process_length_hint_sum_counterexample:
  "process_length_hint sox_concatenate [long_desc1, long_desc2] [] = Inr (1 :: 32 word)
   \<and> length_ft long_desc1 \<noteq> 0 \<and> length_ft long_desc2 \<noteq> 0
   \<and> sum_list (map (\<lambda>d. unat (wide_length d)) [long_desc1, long_desc2]) = 4294967297"
  by (simp add: process_length_hint_def init_totals_def scan_input_def Let_def
      wide_length_def long_desc1_def long_desc2_def cd_signal_def)

text \<open>Mixing a stereo input of 8 samples and a mono input of 6: the hint is 6.\<close>

lemma process_length_hint_mix_example:
  "process_length_hint sox_mix [hint_desc1, hint_desc2] [{}] = Inr 6"
  by (simp add: process_length_hint_def init_totals_def scan_input_def Let_def
      hint_desc1_def hint_desc2_def cd_signal_def)

section \<open>Properties of the chain builder\<close>

lemma bind_exit_Inr:
  "bind_exit r f = Inr v \<Longrightarrow> \<exists>u. r = Inr u \<and> f u = Inr v"
  by (cases r) (simp_all add: bind_exit_def)

lemma bind_exit_Inl:
  "bind_exit r f = Inl x \<Longrightarrow> r = Inl x \<or> (\<exists>u. r = Inr u \<and> f u = Inl x)"
  by (cases r) (simp_all add: bind_exit_def)

lemma fold_scan_user_effect:
  "fold scan_user_effect us (nc, nr, uc, ur) =
     (nc \<and> \<not> (\<exists>e \<in> set us. SOX_EFF_CHAN \<in> flags e),
      nr \<and> \<not> (\<exists>e \<in> set us. SOX_EFF_RATE \<in> flags e),
      uc + length (filter (\<lambda>e. SOX_EFF_CHAN \<in> flags e) us),
      ur + length (filter (\<lambda>e. SOX_EFF_RATE \<in> flags e) us))"
  by (induction us arbitrary: nc nr uc ur) (auto simp add: scan_user_effect_def)

text \<open>
  What a step that adds one entry does to the tables when it returns: the entry is
  inside \<open>efftab\<close>, \<open>neffects\<close> goes up by one, and the entries before it stay.
\<close>

lemma add_effect_Inr:
  assumes "add_effect lib c osig s = Inr s'"
  shows "neffects (fst s') = neffects (fst s) + 1"
    and "length (efftab (fst s')) = length (efftab (fst s))"
    and "neffects (fst s) < length (efftab (fst s))"
    and "chain_names (fst s')
           = chain_names (fst s) @ [name (efftab (fst s) ! neffects (fst s))]"
    and "0 < neffects (fst s) \<Longrightarrow> efftab (fst s') ! 0 = efftab (fst s) ! 0"
proof -
  obtain ch m where s: "s = (ch, m)" by (cases s)
  define e where "e = efftab ch ! neffects ch"
  obtain ii oi m' where u: "sox_updateeffect lib e c osig m = (ii, oi, m')"
    by (cases "sox_updateeffect lib e c osig m")
  define e' where "e' = e\<lparr>ininfo := ii, outinfo := oi\<rparr>"
  from assms have b: "neffects ch < length (efftab ch)"
    and s': "fst s' = ch\<lparr>efftab := (efftab ch)[neffects ch := e'],
                   efftabR := (efftabR ch)[neffects ch :=
                      (if channels (ininfo e') > 1 \<and> SOX_EFF_MCHAN \<notin> flags e' then Some e'
                       else None)],
                   neffects := neffects ch + 1\<rparr>"
    by (auto simp add: add_effect_def s e_def [symmetric] u e'_def Let_def split: if_splits)
  show "neffects (fst s') = neffects (fst s) + 1"
    by (simp add: s' s)
  show "length (efftab (fst s')) = length (efftab (fst s))"
    by (simp add: s' s)
  show "neffects (fst s) < length (efftab (fst s))"
    using b by (simp add: s)
  show "chain_names (fst s')
           = chain_names (fst s) @ [name (efftab (fst s) ! neffects (fst s))]"
    using b by (simp add: s' s chain_names_def take_Suc_conv_app_nth e'_def e_def)
  show "efftab (fst s') ! 0 = efftab (fst s) ! 0" if "0 < neffects (fst s)"
    using that by (simp add: s' s)
qed

lemma add_effect_Inl:
  "add_effect lib c osig s = Inl x \<Longrightarrow> x = Out_of_bounds"
  by (cases s) (simp add: add_effect_def Let_def split: prod.splits if_splits)

lemma add_user_effect_Inr:
  assumes "add_user_effect lib c osig u s = Inr s'"
  shows "neffects (fst s') = neffects (fst s) + 1"
    and "length (efftab (fst s')) = length (efftab (fst s))"
    and "neffects (fst s) < length (efftab (fst s))"
    and "chain_names (fst s') = chain_names (fst s) @ [name u]"
    and "0 < neffects (fst s) \<Longrightarrow> efftab (fst s') ! 0 = efftab (fst s) ! 0"
proof -
  obtain ch m where s: "s = (ch, m)" by (cases s)
  define s1 where "s1 = (ch\<lparr>efftab := (efftab ch)[neffects ch := u]\<rparr>, m)"
  from assms have b: "neffects ch < length (efftab ch)"
    and a: "add_effect lib c osig s1 = Inr s'"
    by (simp_all add: add_user_effect_def s s1_def split: if_splits)
  note r = add_effect_Inr [OF a]
  show "neffects (fst s') = neffects (fst s) + 1"
    using r(1) by (simp add: s1_def s)
  show "length (efftab (fst s')) = length (efftab (fst s))"
    using r(2) by (simp add: s1_def s)
  show "neffects (fst s) < length (efftab (fst s))"
    using b by (simp add: s)
  show "chain_names (fst s') = chain_names (fst s) @ [name u]"
    using r(4) b by (simp add: s1_def s chain_names_def)
  show "efftab (fst s') ! 0 = efftab (fst s) ! 0" if "0 < neffects (fst s)"
    using r(5) that by (simp add: s1_def s)
qed

lemma add_user_effect_Inl:
  "add_user_effect lib c osig u s = Inl x \<Longrightarrow> x = Out_of_bounds"
  by (cases s) (auto simp add: add_user_effect_def split: if_splits dest: add_effect_Inl)

lemma add_user_effects_Inr:
  assumes "add_user_effects lib c osig us s = Inr s'"
  shows "neffects (fst s') = neffects (fst s) + length us
     \<and> length (efftab (fst s')) = length (efftab (fst s))
     \<and> (us \<noteq> [] \<longrightarrow> neffects (fst s') \<le> length (efftab (fst s)))
     \<and> chain_names (fst s') = chain_names (fst s) @ map name us
     \<and> (0 < neffects (fst s) \<longrightarrow> efftab (fst s') ! 0 = efftab (fst s) ! 0)"
  using assms
proof (induction us arbitrary: s)
  case Nil
  then show ?case by simp
next
  case (Cons u us)
  from Cons.prems obtain s1 where a: "add_user_effect lib c osig u s = Inr s1"
    and r: "add_user_effects lib c osig us s1 = Inr s'"
    by (auto dest: bind_exit_Inr)
  note u = add_user_effect_Inr [OF a]
  note ih = Cons.IH [OF r]
  show ?case
  proof (cases "us = []")
    case True
    with r have "s' = s1" by simp
    with u True show ?thesis by simp
  next
    case False
    with ih u show ?thesis by simp
  qed
qed

lemma add_user_effects_Inl:
  "add_user_effects lib c osig us s = Inl x \<Longrightarrow> x = Out_of_bounds"
proof (induction us arbitrary: s)
  case Nil
  then show ?case by simp
next
  case (Cons u us)
  from Cons.prems
  have "add_user_effect lib c osig u s = Inl x
      \<or> (\<exists>s1. add_user_effects lib c osig us s1 = Inl x)"
    by (auto dest: bind_exit_Inl)
  then show ?case
    using Cons.IH by (auto dest: add_user_effect_Inl)
qed

lemma add_default_effect_Inr:
  assumes "add_default_effect lib c osig nm s = Inr s'"
  shows "neffects (fst s') = neffects (fst s) + 1"
    and "length (efftab (fst s')) = length (efftab (fst s))"
    and "neffects (fst s) < length (efftab (fst s))"
    and "chain_names (fst s') = chain_names (fst s) @ [nm]"
    and "0 < neffects (fst s) \<Longrightarrow> efftab (fst s') ! 0 = efftab (fst s) ! 0"
proof -
  obtain ch m where s: "s = (ch, m)" by (cases s)
  obtain fl pr where g: "sox_geteffect lib nm = (fl, pr)" by (cases "sox_geteffect lib nm")
  define e1 where "e1 = (efftab ch ! neffects ch)\<lparr>name := nm, flags := fl, priv := pr\<rparr>"
  obtain r pr' where o: "h_getopts lib e1 [] = (r, pr')" by (cases "h_getopts lib e1 []")
  define s1 where "s1 = (ch\<lparr>efftab := (efftab ch)[neffects ch := e1\<lparr>priv := pr'\<rparr>]\<rparr>, m)"
  from assms have b: "neffects ch < length (efftab ch)"
    and a: "add_effect lib c osig s1 = Inr s'"
    by (simp_all add: add_default_effect_def s g e1_def [symmetric] o s1_def split: if_splits)
  note r = add_effect_Inr [OF a]
  show "neffects (fst s') = neffects (fst s) + 1"
    using r(1) by (simp add: s1_def s)
  show "length (efftab (fst s')) = length (efftab (fst s))"
    using r(2) by (simp add: s1_def s)
  show "neffects (fst s) < length (efftab (fst s))"
    using b by (simp add: s)
  show "chain_names (fst s') = chain_names (fst s) @ [nm]"
    using r(4) b by (simp add: s1_def s chain_names_def e1_def)
  show "efftab (fst s') ! 0 = efftab (fst s) ! 0" if "0 < neffects (fst s)"
    using r(5) that by (simp add: s1_def s)
qed

lemma add_default_effect_Inl:
  assumes "add_default_effect lib c osig nm s = Inl x"
  shows "x = Out_of_bounds \<or> (\<exists>e. fst (h_getopts lib e []) = SOX_EOF)"
proof -
  obtain ch m where s: "s = (ch, m)" by (cases s)
  obtain fl pr where g: "sox_geteffect lib nm = (fl, pr)" by (cases "sox_geteffect lib nm")
  define e1 where "e1 = (efftab ch ! neffects ch)\<lparr>name := nm, flags := fl, priv := pr\<rparr>"
  obtain r pr' where o: "h_getopts lib e1 [] = (r, pr')" by (cases "h_getopts lib e1 []")
  show ?thesis
  proof (cases "r = SOX_EOF")
    case True
    with o have "fst (h_getopts lib e1 []) = SOX_EOF" by simp
    then show ?thesis by blast
  next
    case False
    with assms show ?thesis
      by (auto simp add: add_default_effect_def s g e1_def [symmetric] o
          split: if_splits dest: add_effect_Inl)
  qed
qed

lemma optional_default_effect:
  assumes "(if b then add_default_effect lib c osig nm s else Inr s) = Inr s'"
  shows "neffects (fst s') = neffects (fst s) + (if b then 1 else 0)
     \<and> length (efftab (fst s')) = length (efftab (fst s))
     \<and> (b \<longrightarrow> neffects (fst s') \<le> length (efftab (fst s)))
     \<and> chain_names (fst s') = chain_names (fst s) @ (if b then [nm] else [])
     \<and> (0 < neffects (fst s) \<longrightarrow> efftab (fst s') ! 0 = efftab (fst s) ! 0)"
proof (cases b)
  case True
  with assms have d: "add_default_effect lib c osig nm s = Inr s'" by simp
  from add_default_effect_Inr [OF d] True show ?thesis by simp
next
  case False
  with assms have "s' = s" by simp
  with False show ?thesis by simp
qed

lemma optional_default_effect_Inl:
  assumes "(if b then add_default_effect lib c osig nm s else Inr s) = Inl x"
  shows "x = Out_of_bounds \<or> (\<exists>e. fst (h_getopts lib e []) = SOX_EOF)"
  using assms by (cases b) (auto dest: add_default_effect_Inl)


text \<open>\<open>build_effects_table\<close> with the result of its first loop written out.\<close>

lemma build_effects_table_eq:
  "build_effects_table lib combiner osignal user_efftab ch =
     (if 1 < length (filter (\<lambda>e. SOX_EFF_CHAN \<in> flags e) user_efftab)
      then Inl (Exit 2 ''Cannot specify multiple effects that change number of channels'')
      else
        bind_exit
          (if need_chan_after combiner osignal user_efftab \<and> channels combiner > channels osignal
           then add_default_effect lib combiner osignal ''mixer'' (ch\<lparr>neffects := 1\<rparr>, 0)
           else Inr (ch\<lparr>neffects := 1\<rparr>, 0))
          (\<lambda>s1. bind_exit
             (if need_rate_after combiner osignal user_efftab \<and> rate combiner > rate osignal
              then add_default_effect lib combiner osignal ''resample'' s1 else Inr s1)
          (\<lambda>s2. bind_exit (add_user_effects lib combiner osignal user_efftab s2)
          (\<lambda>s3. bind_exit
             (if need_rate_after combiner osignal user_efftab \<and> \<not> rate combiner > rate osignal
              then add_default_effect lib combiner osignal ''resample'' s3 else Inr s3)
          (\<lambda>s4.
              if need_chan_after combiner osignal user_efftab
                 \<and> \<not> channels combiner > channels osignal
              then add_default_effect lib combiner osignal ''mixer'' s4 else Inr s4)))))"
proof -
  have scan: "fold scan_user_effect user_efftab
             (channels combiner \<noteq> channels osignal, rate combiner \<noteq> rate osignal, 0, 0)
        = (need_chan_after combiner osignal user_efftab,
           need_rate_after combiner osignal user_efftab,
           length (filter (\<lambda>e. SOX_EFF_CHAN \<in> flags e) user_efftab),
           length (filter (\<lambda>e. SOX_EFF_RATE \<in> flags e) user_efftab))"
    by (simp add: fold_scan_user_effect need_chan_after_def need_rate_after_def)
  show ?thesis
    by (simp only: build_effects_table_def scan prod.case Let_def)
qed

text \<open>
  When \<open>build_effects_table\<close> returns, every entry it wrote is inside \<open>efftab\<close>, and
  the chain is the sentinel, the converters that reduce, the user effects and the
  converters that are still needed, in this order.
\<close>

lemma build_effects_table_Inr:
  assumes "build_effects_table lib combiner osignal user_efftab ch = Inr (ch', effects_mask)"
  shows "neffects ch' = 1 + length user_efftab
            + (if need_chan_after combiner osignal user_efftab then 1 else 0)
            + (if need_rate_after combiner osignal user_efftab then 1 else 0)"
    and "1 < neffects ch' \<Longrightarrow> neffects ch' \<le> length (efftab ch)"
    and "length (efftab ch') = length (efftab ch)"
    and "efftab ch' ! 0 = efftab ch ! 0"
    and "efftab ch \<noteq> [] \<Longrightarrow> chain_names ch' =
           [name (efftab ch ! 0)]
           @ (if need_chan_after combiner osignal user_efftab
                 \<and> channels combiner > channels osignal then [''mixer''] else [])
           @ (if need_rate_after combiner osignal user_efftab
                 \<and> rate combiner > rate osignal then [''resample''] else [])
           @ map name user_efftab
           @ (if need_rate_after combiner osignal user_efftab
                 \<and> \<not> rate combiner > rate osignal then [''resample''] else [])
           @ (if need_chan_after combiner osignal user_efftab
                 \<and> \<not> channels combiner > channels osignal then [''mixer''] else [])"
proof -
  define nc where "nc = need_chan_after combiner osignal user_efftab"
  define nr where "nr = need_rate_after combiner osignal user_efftab"
  define b1 where "b1 \<longleftrightarrow> nc \<and> channels combiner > channels osignal"
  define b2 where "b2 \<longleftrightarrow> nr \<and> rate combiner > rate osignal"
  define b3 where "b3 \<longleftrightarrow> nr \<and> \<not> rate combiner > rate osignal"
  define b4 where "b4 \<longleftrightarrow> nc \<and> \<not> channels combiner > channels osignal"
  define s0 where "s0 = (ch\<lparr>neffects := 1\<rparr>, 0::int)"
  define add where "add = add_default_effect lib combiner osignal"
  define X where "X = bind_exit (if b1 then add ''mixer'' s0 else Inr s0)
          (\<lambda>s1. bind_exit (if b2 then add ''resample'' s1 else Inr s1)
          (\<lambda>s2. bind_exit (add_user_effects lib combiner osignal user_efftab s2)
          (\<lambda>s3. bind_exit (if b3 then add ''resample'' s3 else Inr s3)
          (\<lambda>s4. if b4 then add ''mixer'' s4 else Inr s4))))"
  have e: "build_effects_table lib combiner osignal user_efftab ch =
      (if 1 < length (filter (\<lambda>e. SOX_EFF_CHAN \<in> flags e) user_efftab)
       then Inl (Exit 2 ''Cannot specify multiple effects that change number of channels'')
       else X)"
    unfolding X_def b1_def b2_def b3_def b4_def nc_def nr_def s0_def add_def
    by (rule build_effects_table_eq)
  from assms have "X = Inr (ch', effects_mask)"
    unfolding e by (simp split: if_splits)
  then have "bind_exit (if b1 then add ''mixer'' s0 else Inr s0)
          (\<lambda>s1. bind_exit (if b2 then add ''resample'' s1 else Inr s1)
          (\<lambda>s2. bind_exit (add_user_effects lib combiner osignal user_efftab s2)
          (\<lambda>s3. bind_exit (if b3 then add ''resample'' s3 else Inr s3)
          (\<lambda>s4. if b4 then add ''mixer'' s4 else Inr s4)))) = Inr (ch', effects_mask)"
    unfolding X_def .
  then obtain s1 s2 s3 s4 where
        a1: "(if b1 then add ''mixer'' s0 else Inr s0) = Inr s1"
    and a2: "(if b2 then add ''resample'' s1 else Inr s1) = Inr s2"
    and a3: "add_user_effects lib combiner osignal user_efftab s2 = Inr s3"
    and a4: "(if b3 then add ''resample'' s3 else Inr s3) = Inr s4"
    and a5: "(if b4 then add ''mixer'' s4 else Inr s4) = Inr (ch', effects_mask)"
    by (blast dest: bind_exit_Inr)
  note o1 = optional_default_effect [OF a1 [unfolded add_def]]
  note o2 = optional_default_effect [OF a2 [unfolded add_def]]
  note o3 = add_user_effects_Inr [OF a3]
  note o4 = optional_default_effect [OF a4 [unfolded add_def]]
  note o5 = optional_default_effect [OF a5 [unfolded add_def]]
  have n0: "neffects (fst s0) = 1" and l0: "length (efftab (fst s0)) = length (efftab ch)"
    and e0: "efftab (fst s0) ! 0 = efftab ch ! 0"
    by (simp_all add: s0_def)
  have n1: "neffects (fst s1) = 1 + (if b1 then 1 else 0)"
    using o1 n0 by simp
  have n2: "neffects (fst s2) = neffects (fst s1) + (if b2 then 1 else 0)"
    using o2 by simp
  have n3: "neffects (fst s3) = neffects (fst s2) + length user_efftab"
    using o3 by simp
  have n4: "neffects (fst s4) = neffects (fst s3) + (if b3 then 1 else 0)"
    using o4 by simp
  have n5: "neffects ch' = neffects (fst s4) + (if b4 then 1 else 0)"
    using o5 by simp
  have l: "length (efftab (fst s1)) = length (efftab ch)"
    "length (efftab (fst s2)) = length (efftab ch)"
    "length (efftab (fst s3)) = length (efftab ch)"
    "length (efftab (fst s4)) = length (efftab ch)"
    "length (efftab ch') = length (efftab ch)"
    using o1 o2 o3 o4 o5 l0 by simp_all
  show "neffects ch' = 1 + length user_efftab
            + (if need_chan_after combiner osignal user_efftab then 1 else 0)
            + (if need_rate_after combiner osignal user_efftab then 1 else 0)"
    unfolding n5 n4 n3 n2 n1
    by (auto simp add: b1_def b2_def b3_def b4_def nc_def nr_def)
  show "length (efftab ch') = length (efftab ch)"
    by (rule l(5))
  have m1: "b1 \<longrightarrow> neffects (fst s1) \<le> length (efftab ch)"
    using o1 l0 by auto
  have m2: "b2 \<longrightarrow> neffects (fst s2) \<le> length (efftab ch)"
    using o2 l by auto
  have m3: "user_efftab \<noteq> [] \<longrightarrow> neffects (fst s3) \<le> length (efftab ch)"
    using o3 l by auto
  have m4: "b3 \<longrightarrow> neffects (fst s4) \<le> length (efftab ch)"
    using o4 l by auto
  have m5: "b4 \<longrightarrow> neffects ch' \<le> length (efftab ch)"
    using o5 l by auto
  show "neffects ch' \<le> length (efftab ch)" if "1 < neffects ch'"
  proof -
    consider "b4" | "\<not> b4" "b3" | "\<not> b4" "\<not> b3" "user_efftab \<noteq> []"
      | "\<not> b4" "\<not> b3" "user_efftab = []" "b2"
      | "\<not> b4" "\<not> b3" "user_efftab = []" "\<not> b2" "b1"
      | "\<not> b4" "\<not> b3" "user_efftab = []" "\<not> b2" "\<not> b1"
      by blast
    then show ?thesis
    proof cases
      case 1
      with m5 show ?thesis by simp
    next
      case 2
      with m4 n5 show ?thesis by simp
    next
      case 3
      with m3 n5 n4 show ?thesis by simp
    next
      case 4
      with m2 n5 n4 n3 show ?thesis by simp
    next
      case 5
      with m1 n5 n4 n3 n2 show ?thesis by simp
    next
      case 6
      with n5 n4 n3 n2 n1 that show ?thesis by simp
    qed
  qed
  have p: "0 < neffects (fst s0)" "0 < neffects (fst s1)" "0 < neffects (fst s2)"
    "0 < neffects (fst s3)" "0 < neffects (fst s4)"
    using n0 n1 n2 n3 n4 by simp_all
  show sent: "efftab ch' ! 0 = efftab ch ! 0"
    using o1 o2 o3 o4 o5 p e0 by simp
  show "chain_names ch' =
           [name (efftab ch ! 0)]
           @ (if need_chan_after combiner osignal user_efftab
                 \<and> channels combiner > channels osignal then [''mixer''] else [])
           @ (if need_rate_after combiner osignal user_efftab
                 \<and> rate combiner > rate osignal then [''resample''] else [])
           @ map name user_efftab
           @ (if need_rate_after combiner osignal user_efftab
                 \<and> \<not> rate combiner > rate osignal then [''resample''] else [])
           @ (if need_chan_after combiner osignal user_efftab
                 \<and> \<not> channels combiner > channels osignal then [''mixer''] else [])"
    if "efftab ch \<noteq> []"
  proof -
    from that have "0 < length (efftab ch)" by simp
    then have c0: "chain_names (fst s0) = [name (efftab ch ! 0)]"
      by (simp add: s0_def chain_names_def take_Suc_conv_app_nth)
    have "chain_names ch' = chain_names (fst s0) @ (if b1 then [''mixer''] else [])
        @ (if b2 then [''resample''] else []) @ map name user_efftab
        @ (if b3 then [''resample''] else []) @ (if b4 then [''mixer''] else [])"
      using o1 o2 o3 o4 o5 by simp
    then show ?thesis
      unfolding c0 by (simp add: b1_def b2_def b3_def b4_def nc_def nr_def)
  qed
qed

text \<open>
  Apart from the exit for several channel-changing effects, \<open>build_effects_table\<close>
  only fails where \<open>getopts\<close> of a converter fails or where it leaves the table.
\<close>

lemma build_effects_table_Inl:
  assumes "build_effects_table lib combiner osignal user_efftab ch = Inl x"
  shows "x = Out_of_bounds \<or> (\<exists>e. fst (h_getopts lib e []) = SOX_EOF)
     \<or> 1 < length (filter (\<lambda>e. SOX_EFF_CHAN \<in> flags e) user_efftab)"
proof (cases "1 < length (filter (\<lambda>e. SOX_EFF_CHAN \<in> flags e) user_efftab)")
  case True
  then show ?thesis by simp
next
  case False
  define nc where "nc = need_chan_after combiner osignal user_efftab"
  define nr where "nr = need_rate_after combiner osignal user_efftab"
  define b1 where "b1 \<longleftrightarrow> nc \<and> channels combiner > channels osignal"
  define b2 where "b2 \<longleftrightarrow> nr \<and> rate combiner > rate osignal"
  define b3 where "b3 \<longleftrightarrow> nr \<and> \<not> rate combiner > rate osignal"
  define b4 where "b4 \<longleftrightarrow> nc \<and> \<not> channels combiner > channels osignal"
  define s0 where "s0 = (ch\<lparr>neffects := 1\<rparr>, 0::int)"
  define add where "add = add_default_effect lib combiner osignal"
  define X where "X = bind_exit (if b1 then add ''mixer'' s0 else Inr s0)
          (\<lambda>s1. bind_exit (if b2 then add ''resample'' s1 else Inr s1)
          (\<lambda>s2. bind_exit (add_user_effects lib combiner osignal user_efftab s2)
          (\<lambda>s3. bind_exit (if b3 then add ''resample'' s3 else Inr s3)
          (\<lambda>s4. if b4 then add ''mixer'' s4 else Inr s4))))"
  have e: "build_effects_table lib combiner osignal user_efftab ch =
      (if 1 < length (filter (\<lambda>e. SOX_EFF_CHAN \<in> flags e) user_efftab)
       then Inl (Exit 2 ''Cannot specify multiple effects that change number of channels'')
       else X)"
    unfolding X_def b1_def b2_def b3_def b4_def nc_def nr_def s0_def add_def
    by (rule build_effects_table_eq)
  from assms False have "X = Inl x"
    unfolding e by simp
  then have "bind_exit (if b1 then add ''mixer'' s0 else Inr s0)
          (\<lambda>s1. bind_exit (if b2 then add ''resample'' s1 else Inr s1)
          (\<lambda>s2. bind_exit (add_user_effects lib combiner osignal user_efftab s2)
          (\<lambda>s3. bind_exit (if b3 then add ''resample'' s3 else Inr s3)
          (\<lambda>s4. if b4 then add ''mixer'' s4 else Inr s4)))) = Inl x"
    unfolding X_def .
  then have "(if b1 then add ''mixer'' s0 else Inr s0) = Inl x
      \<or> (\<exists>s1. (if b2 then add ''resample'' s1 else Inr s1) = Inl x)
      \<or> (\<exists>s2. add_user_effects lib combiner osignal user_efftab s2 = Inl x)
      \<or> (\<exists>s3. (if b3 then add ''resample'' s3 else Inr s3) = Inl x)
      \<or> (\<exists>s4. (if b4 then add ''mixer'' s4 else Inr s4) = Inl x)"
    by (blast dest: bind_exit_Inl)
  then have "x = Out_of_bounds \<or> (\<exists>e. fst (h_getopts lib e []) = SOX_EOF)"
    unfolding add_def
    by (blast dest: optional_default_effect_Inl add_user_effects_Inl)
  then show ?thesis by blast
qed


text \<open>
  A chain that fits: \<open>vol\<close> between a stereo input at 48000 Hz and a mono output at
  44100 Hz. Both converters reduce and come before \<open>vol\<close>, and \<open>start_all_effects\<close>
  starts the three effects in this order.
\<close>

lemma build_effects_table_order_example:
  "\<exists>ch' m. build_effects_table lib_ex ((cd_signal 2)\<lparr>rate := 48000\<rparr>) (cd_signal 1)
              [effect_ex ''vol'' {}] chain_empty = Inr (ch', m)
          \<and> chain_names ch' = [[], ''mixer'', ''resample'', ''vol'']"
proof -
  have "\<exists>ch' m. build_effects_table lib_ex ((cd_signal 2)\<lparr>rate := 48000\<rparr>) (cd_signal 1)
              [effect_ex ''vol'' {}] chain_empty = Inr (ch', m)"
    by (simp add: build_effects_table_def scan_user_effect_def add_default_effect_def
        add_effect_def add_user_effect_def bind_exit_def lib_ex_def effect_ex_def
        chain_empty_def cd_signal_def Let_def MAX_EFF_def)
  then obtain ch' m where
    r: "build_effects_table lib_ex ((cd_signal 2)\<lparr>rate := 48000\<rparr>) (cd_signal 1)
              [effect_ex ''vol'' {}] chain_empty = Inr (ch', m)"
    by blast
  have "efftab chain_empty \<noteq> []"
    by (simp add: chain_empty_def MAX_EFF_def)
  from build_effects_table_Inr(5) [OF r this]
  have "chain_names ch' = [[], ''mixer'', ''resample'', ''vol'']"
    by (simp add: need_chan_after_def need_rate_after_def cd_signal_def effect_ex_def
        chain_empty_def MAX_EFF_def)
  with r show ?thesis by blast
qed

lemma process_chain_started_example:
  "fst (process_chain lib_ex ((cd_signal 2)\<lparr>rate := 48000\<rparr>) (cd_signal 1)
          [effect_ex ''vol'' {}] chain_empty) = [''mixer'', ''resample'', ''vol'']"
  by (simp add: process_chain_def start_all_effects_def
        build_effects_table_def scan_user_effect_def add_default_effect_def
        add_effect_def add_user_effect_def bind_exit_def lib_ex_def effect_ex_def
        chain_empty_def cd_signal_def Let_def MAX_EFF_def)

text \<open>
  Claim C4 is about the chain that \<open>build_effects_table\<close> builds: sentinel, converters
  that reduce, user effects, converters still needed. With the 14 user effects that
  \<open>parse_effects\<close> accepts, none of them changing channels or rate, and an output that
  differs from the combiner in channels and in rate, this chain has 17 entries, and
  \<open>efftab\<close> has \<open>MAX_EFF = 16\<close>: the chain of the claim is not built, the last entry is
  written outside the table.
\<close>

theorem build_effects_table_overrun:
  assumes "length (efftab ch) = MAX_EFF"
      and "length user_efftab = MAX_USER_EFF"
      and "\<forall>e\<in>set user_efftab. SOX_EFF_CHAN \<notin> flags e \<and> SOX_EFF_RATE \<notin> flags e"
      and "channels combiner \<noteq> channels osignal"
      and "rate combiner \<noteq> rate osignal"
      and "\<forall>e. fst (h_getopts lib e []) \<noteq> SOX_EOF"
  shows "build_effects_table lib combiner osignal user_efftab ch = Inl Out_of_bounds"
proof (cases "build_effects_table lib combiner osignal user_efftab ch")
  case (Inr r)
  obtain ch' m where r: "r = (ch', m)" by (cases r)
  have nc: "need_chan_after combiner osignal user_efftab"
    and nr: "need_rate_after combiner osignal user_efftab"
    using assms(3, 4, 5) by (auto simp add: need_chan_after_def need_rate_after_def)
  note b = build_effects_table_Inr [OF Inr [unfolded r]]
  from b(1) nc nr assms(2) have n: "neffects ch' = MAX_USER_EFF + 3"
    by simp
  then have "1 < neffects ch'"
    by simp
  from b(2) [OF this] n assms(1) have False
    by (simp add: MAX_EFF_def MAX_USER_EFF_def)
  then show ?thesis ..
next
  case (Inl x)
  from assms(3) have "filter (\<lambda>e. SOX_EFF_CHAN \<in> flags e) user_efftab = []"
    by (simp add: filter_empty_conv)
  with build_effects_table_Inl [OF Inl] assms(6) have "x = Out_of_bounds"
    by simp
  with Inl show ?thesis by simp
qed

text \<open>
  Fourteen times \<open>vol\<close> between a mono input at 44100 Hz and a stereo output at
  48000 Hz.
\<close>

theorem build_effects_table_overrun_witness:
  "build_effects_table lib_ex (cd_signal 1) ((cd_signal 2)\<lparr>rate := 48000\<rparr>)
     (replicate 14 (effect_ex ''vol'' {})) chain_empty = Inl Out_of_bounds"
proof -
  have 1: "length (efftab chain_empty) = MAX_EFF"
    by (simp add: chain_empty_def)
  have 2: "length (replicate 14 (effect_ex ''vol'' {})) = MAX_USER_EFF"
    by (simp add: MAX_USER_EFF_def)
  have 3: "\<forall>e\<in>set (replicate 14 (effect_ex ''vol'' {})).
      SOX_EFF_CHAN \<notin> flags e \<and> SOX_EFF_RATE \<notin> flags e"
    by (simp add: effect_ex_def)
  have 4: "channels (cd_signal 1) \<noteq> channels ((cd_signal 2)\<lparr>rate := 48000\<rparr>)"
    by (simp add: cd_signal_def)
  have 5: "rate (cd_signal 1) \<noteq> rate ((cd_signal 2)\<lparr>rate := 48000\<rparr>)"
    by (simp add: cd_signal_def)
  have 6: "\<forall>e. fst (h_getopts lib_ex e []) \<noteq> SOX_EOF"
    by (simp add: lib_ex_def)
  from build_effects_table_overrun [OF 1 2 3 4 5 6] show ?thesis .
qed

text \<open>
  C7 (as the source has it). More than one user effect with the flag \<open>SOX_EFF_CHAN\<close>
  is fatal: \<open>build_effects_table\<close> reports that one cannot specify multiple effects that
  change the number of channels and the program exits with code 2, whatever the library
  and the tables, and with no pipeline started: \<open>start\<close> has been called for no effect.
\<close>

theorem multiple_chan_effects_exit_2:
  assumes "1 < length (filter (\<lambda>e. SOX_EFF_CHAN \<in> flags e) user_efftab)"
  shows "process_chain lib combiner osignal user_efftab ch
           = ([], Inl (Exit 2 ''Cannot specify multiple effects that change number of channels''))"
  using assms
  by (simp add: process_chain_def build_effects_table_eq)

theorem multiple_chan_effects_exit_2_witness:
  "process_chain lib_ex (cd_signal 2) (cd_signal 2)
        [effect_ex ''mixer'' {SOX_EFF_CHAN, SOX_EFF_MCHAN},
         effect_ex ''pan'' {SOX_EFF_CHAN, SOX_EFF_MCHAN}] chain_empty
      = ([], Inl (Exit 2 ''Cannot specify multiple effects that change number of channels''))"
proof -
  have h: "1 < length (filter (\<lambda>e. SOX_EFF_CHAN \<in> flags e)
                 [effect_ex ''mixer'' {SOX_EFF_CHAN, SOX_EFF_MCHAN},
                  effect_ex ''pan'' {SOX_EFF_CHAN, SOX_EFF_MCHAN}])"
    by (simp add: effect_ex_def)
  from multiple_chan_effects_exit_2 [OF h] show ?thesis .
qed

text \<open>
  The claim C7 as stated, exit code 1, fails for two channel-changing user effects: the
  exit code is 2.
\<close>

theorem multiple_chan_effects_exit_1_counterexample:
  "snd (process_chain lib_ex (cd_signal 2) (cd_signal 2)
        [effect_ex ''mixer'' {SOX_EFF_CHAN, SOX_EFF_MCHAN},
         effect_ex ''pan'' {SOX_EFF_CHAN, SOX_EFF_MCHAN}] chain_empty)
      = Inl (Exit 2 ''Cannot specify multiple effects that change number of channels'')
   \<and> (\<forall>msg. snd (process_chain lib_ex (cd_signal 2) (cd_signal 2)
        [effect_ex ''mixer'' {SOX_EFF_CHAN, SOX_EFF_MCHAN},
         effect_ex ''pan'' {SOX_EFF_CHAN, SOX_EFF_MCHAN}] chain_empty)
      \<noteq> Inl (Exit 1 msg))"
  by (simp add: process_chain_def build_effects_table_def scan_user_effect_def bind_exit_def
      effect_ex_def)

section \<open>Properties of the clip counts\<close>

text \<open>
  For an effect with a right instance, \<open>total_clips\<close> adds the left counter twice and
  never reads the right one; so does \<open>stop_effects\<close> for its warning.
\<close>

lemma effect_clips_twin:
  "efftabR ch ! i = Some r \<Longrightarrow> effect_clips ch i cl = cl + 2 * clips (efftab ch ! i)"
  by (simp add: effect_clips_def)

lemma stop_effect_twin:
  assumes "efftabR ch ! e = Some r" and "e < length (efftab ch)"
  shows "snd (stop_effect lib e (ch, ws)) =
           (if 2 * snd (h_stop lib (efftab ch ! e)) \<noteq> 0
            then ws @ [(name (efftab ch ! e), 2 * snd (h_stop lib (efftab ch ! e)))] else ws)"
  using assms by (simp add: stop_effect_def Let_def)

text \<open>
  C5 fails on the code. With 3 clips counted by the left instance of \<open>vol\<close> and 4 by
  the right one, the warning of \<open>stop_effects\<close> and the total of \<open>total_clips\<close> show
  6, twice the left count, where the sum of the two counters is 7.
\<close>

theorem twin_clips_left_counted_twice:
  "clips (efftab chain_twin_ex ! 1) = 3
   \<and> map_option clips (efftabR chain_twin_ex ! 1) = Some 4
   \<and> snd (stop_effects lib_ex chain_twin_ex) = [(''vol'', 6)]
   \<and> total_clips [] 0 chain_twin_ex = Some 6"
proof -
  have u: "[1..<neffects chain_twin_ex] = [1]"
    by (simp add: chain_twin_ex_def upt_rec [of "Suc 0"] numeral_2_eq_2)
  have l: "efftab chain_twin_ex ! 1 = (effect_ex ''vol'' {})\<lparr>clips := 3\<rparr>"
    by (simp add: chain_twin_ex_def MAX_EFF_def)
  have r: "efftabR chain_twin_ex ! 1 = Some ((effect_ex ''vol'' {})\<lparr>clips := 4\<rparr>)"
    by (simp add: chain_twin_ex_def MAX_EFF_def)
  have len: "1 < length (efftab chain_twin_ex)"
    by (simp add: chain_twin_ex_def MAX_EFF_def)
  have hs: "h_stop lib_ex e = ((), clips e)" for e
    by (simp add: lib_ex_def)
  have "snd (stop_effect lib_ex 1 (chain_twin_ex, [])) = [(''vol'', 6)]"
    unfolding stop_effect_twin [OF r len] l hs by (simp add: effect_ex_def)
  with u have s: "snd (stop_effects lib_ex chain_twin_ex) = [(''vol'', 6)]"
    by (simp add: stop_effects_def)
  have "effect_clips chain_twin_ex 1 0 = 6"
    unfolding effect_clips_twin [OF r] l by (simp add: effect_ex_def)
  with u have t: "total_clips [] 0 chain_twin_ex = Some 6"
    by (simp add: total_clips_def)
  show ?thesis using s t l r by (simp add: effect_ex_def)
qed

section \<open>Properties of the scheduler\<close>

lemma nth_update_cases:
  "xs[i := x] ! j = (if i = j \<and> i < length xs then x else xs ! j)"
  by (cases "i < length xs") (simp_all add: nth_list_update list_update_beyond)



lemma sched_inv_cong:
  "efftab st' = efftab st \<Longrightarrow> neffects st' = neffects st \<Longrightarrow> sched_inv b st' = sched_inv b st"
  by (simp add: sched_inv_def)

lemma poll_abort_fields:
  "efftab (snd (poll_abort st)) = efftab st"
  "efftabR (snd (poll_abort st)) = efftabR st"
  "neffects (snd (poll_abort st)) = neffects st"
  "input_eff (snd (poll_abort st)) = input_eff st"
  "input_eff_eof (snd (poll_abort st)) = input_eff_eof st"
  "obufl (snd (poll_abort st)) = obufl st"
  "obufr (snd (poll_abort st)) = obufr st"
  by (simp_all add: poll_abort_def split: option.splits nat.splits)

lemma flow_result_Inr: "flow_result rc0 d st = Inr (r, st') \<Longrightarrow> st' = st"
  by (simp add: flow_result_def split: if_splits)


































section \<open>Properties of the stereo splitter\<close>

lemma write_at_length: "length (write_at buf pos xs) = length buf"
  by (induction xs arbitrary: buf pos) simp_all

lemma write_at_nth:
  "write_at buf pos xs ! j =
     (if pos \<le> j \<and> j < pos + length xs \<and> j < length buf then xs ! (j - pos) else buf ! j)"
proof (induction xs arbitrary: buf pos)
  case Nil
  then show ?case by auto
next
  case (Cons x xs)
  have ih: "write_at (buf[pos := x]) (Suc pos) xs ! j =
     (if Suc pos \<le> j \<and> j < Suc pos + length xs \<and> j < length (buf[pos := x])
      then xs ! (j - Suc pos) else buf[pos := x] ! j)"
    by (rule Cons.IH)
  show ?case
    unfolding write_at.simps ih by (auto simp add: nth_update_cases nth_Cons')
qed

lemma interleave_into_length: "length (interleave_into buf pos l r n) = length buf"
  unfolding interleave_into_def by (induction n) simp_all

lemma interleave_into_Suc:
  "interleave_into buf pos l r (Suc n) =
     (interleave_into buf pos l r n)[pos + 2 * n := l ! n, pos + 2 * n + 1 := r ! n]"
  by (simp add: interleave_into_def)

lemma interleave_into_nth:
  "pos + 2 * n \<le> length buf \<Longrightarrow> i < n \<Longrightarrow>
   interleave_into buf pos l r n ! (pos + 2 * i) = l ! i
   \<and> interleave_into buf pos l r n ! (pos + 2 * i + 1) = r ! i"
proof (induction n)
  case 0
  then show ?case by simp
next
  case (Suc n)
  show ?case
  proof (cases "i = n")
    case True
    with Suc.prems show ?thesis
      by (simp add: interleave_into_Suc interleave_into_length nth_update_cases)
  next
    case False
    with Suc.prems have "i < n" by simp
    with Suc.IH Suc.prems(1) have
      "interleave_into buf pos l r n ! (pos + 2 * i) = l ! i
       \<and> interleave_into buf pos l r n ! (pos + 2 * i + 1) = r ! i" by simp
    with \<open>i < n\<close> show ?thesis
      by (simp add: interleave_into_Suc nth_update_cases)
  qed
qed

lemma interleave_into_before:
  "j < pos \<Longrightarrow> interleave_into buf pos l r n ! j = buf ! j"
  by (induction n) (simp_all add: interleave_into_Suc nth_update_cases, simp add: interleave_into_def)

lemma flow_twin_state:
  assumes r: "flow_twin lib b e right st = Inr (r, st')"
      and e: "0 < e" "e < length (efftab st)"
  shows "olen (efftab st' ! e) = olen (efftab st ! e)
            + (length (flow_left lib b e st) + length (flow_right lib b e right st))"
    and "obuf (efftab st' ! e) =
           interleave_into (obuf (efftab st ! e)) (olen (efftab st ! e))
             (write_at (obufl st) 0 (flow_left lib b e st))
             (write_at (obufr st) 0 (flow_right lib b e right st))
             (length (flow_right lib b e right st))"
proof -
  define prev where "prev = efftab st ! (e - 1)"
  define cur where "cur = efftab st ! e"
  define idone where "idone = olen prev - odone prev"
  define room where "room = b - olen cur"
  define inp where "inp = take idone (drop (odone prev) (obuf prev))"
  define hl where "hl = h_flow lib cur (deinterleave_l inp) (room div 2)"
  define hr where "hr = h_flow lib right (deinterleave_r inp) (room div 2)"
  define prev' where "prev' = prev\<lparr>odone := odone prev + (isamp_out hl + isamp_out hr)\<rparr>"
  define cur' where "cur' = cur\<lparr>priv := priv_out hl, clips := clips_out hl,
       obuf := interleave_into (obuf cur) (olen cur) (write_at (obufl st) 0 (samples_out hl))
                 (write_at (obufr st) 0 (samples_out hr)) (length (samples_out hr)),
       olen := olen cur + (length (samples_out hl) + length (samples_out hr))\<rparr>"
  define right' where "right' = right\<lparr>priv := priv_out hr, clips := clips_out hr\<rparr>"
  have st': "st' = st\<lparr>efftab := (efftab st)[e - 1 := prev', e := cur'],
               efftabR := (efftabR st)[e := Some right'],
               obufl := write_at (obufl st) 0 (samples_out hl),
               obufr := write_at (obufr st) 0 (samples_out hr)\<rparr>"
    using r unfolding flow_twin_def Let_def prev_def [symmetric] cur_def [symmetric]
      idone_def [symmetric] room_def [symmetric] inp_def [symmetric] hl_def [symmetric]
      hr_def [symmetric] prev'_def [symmetric] cur'_def [symmetric] right'_def [symmetric]
    by (rule flow_result_Inr)
  have c: "efftab st' ! e = cur'" using e by (simp add: st')
  have l: "flow_left lib b e st = samples_out hl"
    by (simp add: flow_left_def unread_def hl_def inp_def idone_def prev_def cur_def room_def)
  have rr: "flow_right lib b e right st = samples_out hr"
    by (simp add: flow_right_def unread_def hr_def inp_def idone_def prev_def cur_def room_def)
  show "olen (efftab st' ! e) = olen (efftab st ! e)
            + (length (flow_left lib b e st) + length (flow_right lib b e right st))"
    by (simp add: c l rr cur'_def cur_def)
  show "obuf (efftab st' ! e) =
           interleave_into (obuf (efftab st ! e)) (olen (efftab st ! e))
             (write_at (obufl st) 0 (flow_left lib b e st))
             (write_at (obufr st) 0 (flow_right lib b e right st))
             (length (flow_right lib b e right st))"
    by (simp add: c l rr cur'_def cur_def)
qed

lemma flow_effect_twin:
  assumes "efftabR st ! e = Some right"
      and "\<not> fst (poll_abort st)"
      and "odone (efftab st ! (e - 1)) \<noteq> olen (efftab st ! (e - 1))"
  shows "flow_effect lib b e st = flow_twin lib b e right (snd (poll_abort st))"
proof -
  obtain ab st0 where p: "poll_abort st = (ab, st0)" by (cases "poll_abort st")
  then have st0: "st0 = snd (poll_abort st)" and ab: "\<not> ab" using assms(2) by simp_all
  have "efftab st0 = efftab st" "efftabR st0 = efftabR st"
    by (simp_all add: st0 poll_abort_fields)
  with assms(1,3) ab show ?thesis
    by (simp add: flow_effect_def p st0 [symmetric])
qed

lemma poll_abort_flow_left: "flow_left lib b e (snd (poll_abort st)) = flow_left lib b e st"
  by (simp add: flow_left_def unread_def poll_abort_fields)

lemma poll_abort_flow_right:
  "flow_right lib b e right (snd (poll_abort st)) = flow_right lib b e right st"
  by (simp add: flow_right_def unread_def poll_abort_fields)

lemma drain_twin_state:
  assumes "efftabR st ! e = Some right" and "e < length (efftab st)"
  shows "olen (efftab (snd (drain_effect lib b e st)) ! e)
           = length (drain_left lib b e st) + length (drain_right lib b right)"
    and "odone (efftab (snd (drain_effect lib b e st)) ! e) = 0"
    and "obuf (efftab (snd (drain_effect lib b e st)) ! e) =
           interleave_into (obuf (efftab st ! e)) 0
             (write_at (obufl st) 0 (drain_left lib b e st))
             (write_at (obufr st) 0 (drain_right lib b right))
             (length (drain_right lib b right))"
  using assms by (simp_all add: drain_effect_def Let_def drain_left_def drain_right_def)

lemma interleaved_pairs:
  assumes "length xl = n" "length xr = n"
      and "pos + 2 * n \<le> length buf" "n \<le> length sl" "n \<le> length sr" "i < n"
  shows "interleave_into buf pos (write_at sl 0 xl) (write_at sr 0 xr) (length xr) ! (pos + 2 * i)
           = xl ! i
       \<and> interleave_into buf pos (write_at sl 0 xl) (write_at sr 0 xr) (length xr)
             ! (pos + 2 * i + 1) = xr ! i"
proof -
  have "write_at sl 0 xl ! i = xl ! i" "write_at sr 0 xr ! i = xr ! i"
    using assms by (simp_all add: write_at_nth)
  with interleave_into_nth [of pos n buf i "write_at sl 0 xl" "write_at sr 0 xr"] assms
  show ?thesis by simp
qed

lemma flow_result_done: "0 < d \<Longrightarrow> \<exists>r. flow_result rc0 d st = Inr (r, st)"
  by (simp add: flow_result_def)

lemma flow_twin_mismatch:
  assumes "length (flow_left lib b e st) \<noteq> length (flow_right lib b e right st)"
  shows "\<exists>r st'. flow_twin lib b e right st = Inr (r, st')"
proof -
  have "0 < length (flow_left lib b e st) + length (flow_right lib b e right st)"
    using assms by arith
  moreover have "\<exists>rc0 d0 s0. flow_twin lib b e right st = flow_result rc0 d0 s0
       \<and> length (flow_left lib b e st) + length (flow_right lib b e right st) \<le> d0"
    unfolding flow_twin_def Let_def flow_left_def flow_right_def unread_def
    by (intro exI conjI) (rule refl, simp)
  ultimately obtain rc0 d0 s0 where
    "flow_twin lib b e right st = flow_result rc0 d0 s0" "0 < d0" by force
  with flow_result_done [of d0 rc0 s0] show ?thesis by auto
qed

text \<open>
  C8 (as the source has it). When \<open>flow_effect\<close> or \<open>drain_effect\<close> runs the left and
  the right instance of an effect, it does not compare the numbers of samples they
  return. If both return \<open>n\<close> samples, it interleaves exactly \<open>n\<close> left/right pairs into
  the stage's buffer, after the \<open>olen\<close> samples already there when flowing and from the
  start when draining, and \<open>olen\<close> grows by \<open>2 * n\<close> or becomes \<open>2 * n\<close>. If they return
  different numbers, \<open>flow_effect\<close> does not fail: it returns with \<open>olen\<close> grown by the
  sum of the two.
\<close>

theorem twin_interleave:
  assumes twin: "efftabR st ! e = Some right"
      and e: "0 < e" "e < length (efftab st)"
      and scratch: "n \<le> length (obufl st)" "n \<le> length (obufr st)"
  shows
    "(\<not> fst (poll_abort st) \<and> odone (efftab st ! (e - 1)) \<noteq> olen (efftab st ! (e - 1))
        \<and> flow_effect lib b e st = Inr (r, st')
        \<and> length (flow_left lib b e st) = n \<and> length (flow_right lib b e right st) = n
        \<and> olen (efftab st ! e) + 2 * n \<le> length (obuf (efftab st ! e))
      \<longrightarrow> olen (efftab st' ! e) = olen (efftab st ! e) + 2 * n
          \<and> (\<forall>i<n. obuf (efftab st' ! e) ! (olen (efftab st ! e) + 2 * i)
                        = flow_left lib b e st ! i
                  \<and> obuf (efftab st' ! e) ! (olen (efftab st ! e) + 2 * i + 1)
                        = flow_right lib b e right st ! i))
     \<and> (length (drain_left lib b e st) = n \<and> length (drain_right lib b right) = n
        \<and> 2 * n \<le> length (obuf (efftab st ! e))
      \<longrightarrow> olen (efftab (snd (drain_effect lib b e st)) ! e) = 2 * n
          \<and> odone (efftab (snd (drain_effect lib b e st)) ! e) = 0
          \<and> (\<forall>i<n. obuf (efftab (snd (drain_effect lib b e st)) ! e) ! (2 * i)
                        = drain_left lib b e st ! i
                  \<and> obuf (efftab (snd (drain_effect lib b e st)) ! e) ! (2 * i + 1)
                        = drain_right lib b right ! i))
     \<and> (\<not> fst (poll_abort st) \<and> odone (efftab st ! (e - 1)) \<noteq> olen (efftab st ! (e - 1))
        \<and> length (flow_left lib b e st) \<noteq> length (flow_right lib b e right st)
      \<longrightarrow> (\<exists>r1 st1. flow_effect lib b e st = Inr (r1, st1)
             \<and> olen (efftab st1 ! e) = olen (efftab st ! e)
                  + (length (flow_left lib b e st) + length (flow_right lib b e right st))))"
proof (intro conjI impI)
  assume a: "\<not> fst (poll_abort st) \<and> odone (efftab st ! (e - 1)) \<noteq> olen (efftab st ! (e - 1))
        \<and> flow_effect lib b e st = Inr (r, st')
        \<and> length (flow_left lib b e st) = n \<and> length (flow_right lib b e right st) = n
        \<and> olen (efftab st ! e) + 2 * n \<le> length (obuf (efftab st ! e))"
  define st0 where "st0 = snd (poll_abort st)"
  from a have a1: "\<not> fst (poll_abort st)"
    and a2: "odone (efftab st ! (e - 1)) \<noteq> olen (efftab st ! (e - 1))"
    and a3: "flow_effect lib b e st = Inr (r, st')" by blast+
  from a3 have t: "flow_twin lib b e right st0 = Inr (r, st')"
    unfolding flow_effect_twin [OF twin a1 a2] st0_def .
  have f0: "efftab st0 = efftab st" "obufl st0 = obufl st" "obufr st0 = obufr st"
    by (simp_all add: st0_def poll_abort_fields)
  have l0: "flow_left lib b e st0 = flow_left lib b e st"
    and r0: "flow_right lib b e right st0 = flow_right lib b e right st"
    by (simp_all add: st0_def poll_abort_flow_left poll_abort_flow_right)
  note s = flow_twin_state [OF t e(1), unfolded f0 l0 r0, OF e(2)]
  from s(1) a show "olen (efftab st' ! e) = olen (efftab st ! e) + 2 * n" by simp
  show "\<forall>i<n. obuf (efftab st' ! e) ! (olen (efftab st ! e) + 2 * i) = flow_left lib b e st ! i
          \<and> obuf (efftab st' ! e) ! (olen (efftab st ! e) + 2 * i + 1)
                = flow_right lib b e right st ! i"
    unfolding s(2) using a scratch by (intro allI impI interleaved_pairs) simp_all
next
  assume a: "length (drain_left lib b e st) = n \<and> length (drain_right lib b right) = n
        \<and> 2 * n \<le> length (obuf (efftab st ! e))"
  note s = drain_twin_state [OF twin e(2), of lib b]
  from s(1) a show "olen (efftab (snd (drain_effect lib b e st)) ! e) = 2 * n" by simp
  from s(2) show "odone (efftab (snd (drain_effect lib b e st)) ! e) = 0" .
  have "interleave_into (obuf (efftab st ! e)) 0 (write_at (obufl st) 0 (drain_left lib b e st))
           (write_at (obufr st) 0 (drain_right lib b right)) (length (drain_right lib b right))
           ! (0 + 2 * i) = drain_left lib b e st ! i
      \<and> interleave_into (obuf (efftab st ! e)) 0 (write_at (obufl st) 0 (drain_left lib b e st))
           (write_at (obufr st) 0 (drain_right lib b right)) (length (drain_right lib b right))
           ! (0 + 2 * i + 1) = drain_right lib b right ! i" if "i < n" for i
    using a scratch that by (intro interleaved_pairs) simp_all
  then show "\<forall>i<n. obuf (efftab (snd (drain_effect lib b e st)) ! e) ! (2 * i)
                        = drain_left lib b e st ! i
                  \<and> obuf (efftab (snd (drain_effect lib b e st)) ! e) ! (2 * i + 1)
                        = drain_right lib b right ! i"
    unfolding s(3) by simp
next
  assume a: "\<not> fst (poll_abort st) \<and> odone (efftab st ! (e - 1)) \<noteq> olen (efftab st ! (e - 1))
        \<and> length (flow_left lib b e st) \<noteq> length (flow_right lib b e right st)"
  define st0 where "st0 = snd (poll_abort st)"
  have f0: "efftab st0 = efftab st" "obufl st0 = obufl st" "obufr st0 = obufr st"
    by (simp_all add: st0_def poll_abort_fields)
  have l0: "flow_left lib b e st0 = flow_left lib b e st"
    and r0: "flow_right lib b e right st0 = flow_right lib b e right st"
    by (simp_all add: st0_def poll_abort_flow_left poll_abort_flow_right)
  from a have "length (flow_left lib b e st0) \<noteq> length (flow_right lib b e right st0)"
    by (simp add: l0 r0)
  from flow_twin_mismatch [OF this] obtain r1 st1 where
    t: "flow_twin lib b e right st0 = Inr (r1, st1)" by blast
  note s = flow_twin_state [OF t e(1), unfolded f0 l0 r0, OF e(2)]
  from a have a1: "\<not> fst (poll_abort st)"
    and a2: "odone (efftab st ! (e - 1)) \<noteq> olen (efftab st ! (e - 1))" by blast+
  from t have "flow_effect lib b e st = Inr (r1, st1)"
    unfolding flow_effect_twin [OF twin a1 a2] st0_def .
  with s(1) show "\<exists>r1 st1. flow_effect lib b e st = Inr (r1, st1)
             \<and> olen (efftab st1 ! e) = olen (efftab st ! e)
                  + (length (flow_left lib b e st) + length (flow_right lib b e right st))"
    by blast
qed

lemma h_flow_lib_hold_ex:
  "h_flow lib_hold_ex e xs osamp =
     \<lparr>rc = SOX_SUCCESS, priv_out = (), clips_out = clips e,
      isamp_out = min (length xs) osamp, samples_out = take osamp xs\<rparr>"
  by (simp add: lib_hold_ex_def lib_ex_def)

lemma h_drain_lib_hold_ex:
  "h_drain lib_hold_ex e osamp =
     \<lparr>rc = SOX_EOF, priv_out = (), clips_out = clips e, isamp_out = 0,
      samples_out = take osamp [7]\<rparr>"
  by (simp add: lib_hold_ex_def)

lemma h_flow_lib_limit_ex:
  "h_flow lib_limit_ex e xs osamp =
     \<lparr>rc = SOX_SUCCESS, priv_out = priv e, clips_out = clips e,
      isamp_out = min (length xs) (min osamp (priv e)),
      samples_out = take (min osamp (priv e)) xs\<rparr>"
  by (simp add: lib_limit_ex_def)

theorem twin_interleave_witness:
  "efftabR sched_twin_ex ! 1 = Some (effect_ex ''vol'' {})
   \<and> flow_left lib_hold_ex 4 1 sched_twin_ex = [1, 3]
   \<and> flow_right lib_hold_ex 4 1 (effect_ex ''vol'' {}) sched_twin_ex = [2, 4]
   \<and> (\<exists>st'. flow_effect lib_hold_ex 4 1 sched_twin_ex = Inr (SOX_SUCCESS, st')
          \<and> olen (efftab st' ! 1) = 4
          \<and> obuf (efftab st' ! 1) ! 0 = 1 \<and> obuf (efftab st' ! 1) ! 1 = 2
          \<and> obuf (efftab st' ! 1) ! 2 = 3 \<and> obuf (efftab st' ! 1) ! 3 = 4)
   \<and> drain_left lib_hold_ex 4 1 sched_twin_ex = [7]
   \<and> drain_right lib_hold_ex 4 (effect_ex ''vol'' {}) = [7]
   \<and> olen (efftab (snd (drain_effect lib_hold_ex 4 1 sched_twin_ex)) ! 1) = 2
   \<and> obuf (efftab (snd (drain_effect lib_hold_ex 4 1 sched_twin_ex)) ! 1) ! 0 = 7
   \<and> obuf (efftab (snd (drain_effect lib_hold_ex 4 1 sched_twin_ex)) ! 1) ! 1 = 7
   \<and> efftabR sched_limit_ex ! 1 = Some (effect_limit_ex 1)
   \<and> flow_left lib_limit_ex 4 1 sched_limit_ex = [1, 3]
   \<and> flow_right lib_limit_ex 4 1 (effect_limit_ex 1) sched_limit_ex = [2]
   \<and> (\<exists>r1 st1. flow_effect lib_limit_ex 4 1 sched_limit_ex = Inr (r1, st1)
          \<and> olen (efftab st1 ! 1) = 3)"
proof -
  let ?right = "effect_ex ''vol'' {} :: (unit, 32) sox_effect"
  have twin: "efftabR sched_twin_ex ! 1 = Some ?right"
    by (simp add: sched_twin_ex_def sched_ex_def)
  have e: "0 < (1::nat)" "1 < length (efftab sched_twin_ex)"
    by (simp_all add: sched_twin_ex_def sched_ex_def)
  have s2: "2 \<le> length (obufl sched_twin_ex)" "2 \<le> length (obufr sched_twin_ex)"
    by (simp_all add: sched_twin_ex_def sched_ex_def)
  have s1: "1 \<le> length (obufl sched_twin_ex)" "1 \<le> length (obufr sched_twin_ex)"
    by (simp_all add: sched_twin_ex_def sched_ex_def)
  have na: "\<not> fst (poll_abort sched_twin_ex)"
    by (simp add: poll_abort_def sched_twin_ex_def sched_ex_def)
  have data: "odone (efftab sched_twin_ex ! (1 - 1)) \<noteq> olen (efftab sched_twin_ex ! (1 - 1))"
    by (simp add: sched_twin_ex_def sched_ex_def effect_ex_def)
  have fl: "flow_left lib_hold_ex 4 1 sched_twin_ex = [1, 3]"
    by (simp add: flow_left_def unread_def h_flow_lib_hold_ex sched_twin_ex_def sched_ex_def
        effect_ex_def)
  have fr: "flow_right lib_hold_ex 4 1 ?right sched_twin_ex = [2, 4]"
    by (simp add: flow_right_def unread_def h_flow_lib_hold_ex sched_twin_ex_def sched_ex_def
        effect_ex_def)
  have "\<exists>st'. flow_effect lib_hold_ex 4 1 sched_twin_ex = Inr (SOX_SUCCESS, st')"
    by (simp add: flow_effect_def poll_abort_def flow_twin_def flow_result_def Let_def
        h_flow_lib_hold_ex sched_twin_ex_def sched_ex_def effect_ex_def)
  then obtain st' where r: "flow_effect lib_hold_ex 4 1 sched_twin_ex = Inr (SOX_SUCCESS, st')" ..
  have room: "olen (efftab sched_twin_ex ! 1) + 2 * 2 \<le> length (obuf (efftab sched_twin_ex ! 1))"
    by (simp add: sched_twin_ex_def sched_ex_def effect_ex_def)
  note t2 = twin_interleave [OF twin e s2, of lib_hold_ex 4 SOX_SUCCESS st']
  from t2 na data r fl fr room
  have f: "olen (efftab st' ! 1) = olen (efftab sched_twin_ex ! 1) + 2 * 2
       \<and> (\<forall>i<2. obuf (efftab st' ! 1) ! (olen (efftab sched_twin_ex ! 1) + 2 * i) = [1, 3] ! i
              \<and> obuf (efftab st' ! 1) ! (olen (efftab sched_twin_ex ! 1) + 2 * i + 1)
                   = [2, 4] ! i)"
    by simp
  have o0: "olen (efftab sched_twin_ex ! 1) = 0"
    by (simp add: sched_twin_ex_def sched_ex_def effect_ex_def)
  from f o0 have f1: "olen (efftab st' ! 1) = 4" by simp
  from f have fa: "i < 2 \<Longrightarrow> obuf (efftab st' ! 1) ! (0 + 2 * i) = [1, 3] ! i
       \<and> obuf (efftab st' ! 1) ! (0 + 2 * i + 1) = [2, 4] ! i" for i
    unfolding o0 by blast
  from fa [of 0] have f2: "obuf (efftab st' ! 1) ! 0 = 1" "obuf (efftab st' ! 1) ! 1 = 2"
    by simp_all
  from fa [of 1] have f3: "obuf (efftab st' ! 1) ! 2 = 3" "obuf (efftab st' ! 1) ! 3 = 4"
    by (simp_all add: eval_nat_numeral)
  have dl: "drain_left lib_hold_ex 4 1 sched_twin_ex = [7]"
    by (simp add: drain_left_def h_drain_lib_hold_ex)
  have dr: "drain_right lib_hold_ex 4 ?right = [7]"
    by (simp add: drain_right_def h_drain_lib_hold_ex)
  have droom: "2 * 1 \<le> length (obuf (efftab sched_twin_ex ! 1))"
    by (simp add: sched_twin_ex_def sched_ex_def effect_ex_def)
  note t1 = twin_interleave [OF twin e s1, of lib_hold_ex 4]
  from t1 dl dr droom
  have d: "olen (efftab (snd (drain_effect lib_hold_ex 4 1 sched_twin_ex)) ! 1) = 2 * 1
       \<and> (\<forall>i<1. obuf (efftab (snd (drain_effect lib_hold_ex 4 1 sched_twin_ex)) ! 1) ! (2 * i)
                   = [7] ! i
              \<and> obuf (efftab (snd (drain_effect lib_hold_ex 4 1 sched_twin_ex)) ! 1) ! (2 * i + 1)
                   = [7] ! i)"
    by simp
  then have d1: "olen (efftab (snd (drain_effect lib_hold_ex 4 1 sched_twin_ex)) ! 1) = 2"
    by simp
  from d have da: "i < 1 \<Longrightarrow>
       obuf (efftab (snd (drain_effect lib_hold_ex 4 1 sched_twin_ex)) ! 1) ! (2 * i) = [7] ! i
     \<and> obuf (efftab (snd (drain_effect lib_hold_ex 4 1 sched_twin_ex)) ! 1) ! (2 * i + 1) = [7] ! i"
    for i by blast
  from da [of 0] have d2: "obuf (efftab (snd (drain_effect lib_hold_ex 4 1 sched_twin_ex)) ! 1) ! 0 = 7"
    "obuf (efftab (snd (drain_effect lib_hold_ex 4 1 sched_twin_ex)) ! 1) ! 1 = 7"
    by simp_all
  have twinl: "efftabR sched_limit_ex ! 1 = Some (effect_limit_ex 1)"
    by (simp add: sched_limit_ex_def)
  have el: "1 < length (efftab sched_limit_ex)" by (simp add: sched_limit_ex_def)
  have sl: "0 \<le> length (obufl sched_limit_ex)" "0 \<le> length (obufr sched_limit_ex)"
    by simp_all
  have nal: "\<not> fst (poll_abort sched_limit_ex)"
    by (simp add: poll_abort_def sched_limit_ex_def)
  have datal: "odone (efftab sched_limit_ex ! (1 - 1)) \<noteq> olen (efftab sched_limit_ex ! (1 - 1))"
    by (simp add: sched_limit_ex_def effect_limit_ex_def)
  have ll: "flow_left lib_limit_ex 4 1 sched_limit_ex = [1, 3]"
    by (simp add: flow_left_def unread_def h_flow_lib_limit_ex sched_limit_ex_def
        effect_limit_ex_def)
  have lr: "flow_right lib_limit_ex 4 1 (effect_limit_ex 1) sched_limit_ex = [2]"
    by (simp add: flow_right_def unread_def h_flow_lib_limit_ex sched_limit_ex_def
        effect_limit_ex_def)
  note t0 = twin_interleave [OF twinl e(1) el sl, of lib_limit_ex 4]
  have lm: "length (flow_left lib_limit_ex 4 1 sched_limit_ex)
      \<noteq> length (flow_right lib_limit_ex 4 1 (effect_limit_ex 1) sched_limit_ex)"
    unfolding ll lr by simp
  from mp [OF conjunct2 [OF conjunct2 [OF t0]] conjI [OF nal conjI [OF datal lm]]]
  obtain r1 st1 where m: "flow_effect lib_limit_ex 4 1 sched_limit_ex = Inr (r1, st1)"
    and mo: "olen (efftab st1 ! 1) = olen (efftab sched_limit_ex ! 1)
          + (length (flow_left lib_limit_ex 4 1 sched_limit_ex)
             + length (flow_right lib_limit_ex 4 1 (effect_limit_ex 1) sched_limit_ex))"
    by blast
  have "olen (efftab sched_limit_ex ! 1) = 0"
    by (simp add: sched_limit_ex_def effect_limit_ex_def)
  with mo have "olen (efftab st1 ! 1) = 3" unfolding ll lr by simp
  with m have m1: "\<exists>r1 st1. flow_effect lib_limit_ex 4 1 sched_limit_ex = Inr (r1, st1)
          \<and> olen (efftab st1 ! 1) = 3" by blast
  from twin fl fr r f1 f2 f3 dl dr d1 d2 twinl ll lr m1 show ?thesis by blast
qed

text \<open>
  The claim C8 as stated, an assertion that fails loudly when the two sides differ,
  fails where the left instance returns two samples and the right instance one:
  \<open>flow_effect\<close> returns \<open>SOX_SUCCESS\<close>, with one pair interleaved and \<open>olen\<close> grown by
  three, so that the third sample handed on is what the buffer held before.
\<close>

theorem twin_mismatch_counterexample:
  "efftabR sched_limit_ex ! 1 = Some (effect_limit_ex 1)
   \<and> length (flow_left lib_limit_ex 4 1 sched_limit_ex) = 2
   \<and> length (flow_right lib_limit_ex 4 1 (effect_limit_ex 1) sched_limit_ex) = 1
   \<and> (\<exists>st'. flow_effect lib_limit_ex 4 1 sched_limit_ex = Inr (SOX_SUCCESS, st')
          \<and> olen (efftab st' ! 1) = 3
          \<and> take 3 (obuf (efftab st' ! 1)) = [1, 2, 0])"
  by (simp add: flow_effect_def poll_abort_def flow_twin_def flow_result_def Let_def
      flow_left_def flow_right_def unread_def interleave_into_def
      h_flow_lib_limit_ex sched_limit_ex_def effect_limit_ex_def)

section \<open>The command line: properties\<close>

text \<open>
  File names without options, none of them an effect or a playlist: the loop of
  \<open>parse_options_and_filenames\<close> takes them all while the table has room.
\<close>

lemma parse_files_plain:
  assumes "\<forall>w\<in>set names. \<not> is_effect_name env w \<and> \<not> is_playlist env w"
    and "length (files g) + length names \<le> MAX_FILES"
  shows "parse_files fuel env g (map Word names) =
     Some (Inr (g\<lparr>files := files g @ map (\<lambda>w. new_file\<lparr>filename := Some w\<rparr>) names\<rparr>,
                [], None))"
  using assms
proof (induction names arbitrary: g)
  case Nil
  show ?case by simp
next
  case (Cons w ws)
  define g1 where "g1 = g\<lparr>files := files g @ [new_file\<lparr>filename := Some w\<rparr>]\<rparr>"
  from Cons.prems have w: "\<not> is_effect_name env w" "\<not> is_playlist env w"
    and l: "\<not> MAX_FILES \<le> length (files g)"
    by simp_all
  from Cons.prems have "\<forall>w\<in>set ws. \<not> is_effect_name env w \<and> \<not> is_playlist env w"
    and "length (files g1) + length ws \<le> MAX_FILES"
    by (simp_all add: g1_def)
  from Cons.IH [OF this]
  have "parse_files fuel env g1 (map Word ws) =
     Some (Inr (g1\<lparr>files := files g1 @ map (\<lambda>w. new_file\<lparr>filename := Some w\<rparr>) ws\<rparr>,
                [], None))" .
  moreover have "parse_files fuel env g (map Word (w # ws)) = parse_files fuel env g1 (map Word ws)"
    using w l by (simp add: g1_def)
  ultimately show ?case by (simp add: g1_def)
qed

lemma parse_files_too_many:
  assumes "\<forall>w\<in>set names. \<not> is_effect_name env w \<and> \<not> is_playlist env w"
    and "length (files g) \<le> MAX_FILES"
    and "MAX_FILES < length (files g) + length names"
  shows "parse_files fuel env g (map Word names) = Some (Inl too_many_filenames)"
  using assms
proof (induction names arbitrary: g)
  case Nil
  then show ?case by simp
next
  case (Cons w ws)
  define g1 where "g1 = g\<lparr>files := files g @ [new_file\<lparr>filename := Some w\<rparr>]\<rparr>"
  from Cons.prems have w: "\<not> is_effect_name env w" "\<not> is_playlist env w"
    by simp_all
  show ?case
  proof (cases "MAX_FILES \<le> length (files g)")
    case True
    with w show ?thesis by simp
  next
    case False
    with Cons.prems have "\<forall>w\<in>set ws. \<not> is_effect_name env w \<and> \<not> is_playlist env w"
      and "length (files g1) \<le> MAX_FILES"
      and "MAX_FILES < length (files g1) + length ws"
      by (simp_all add: g1_def)
    from Cons.IH [OF this]
    have "parse_files fuel env g1 (map Word ws) = Some (Inl too_many_filenames)" .
    moreover have "parse_files fuel env g (map Word (w # ws)) = parse_files fuel env g1 (map Word ws)"
      using w False by (simp add: g1_def)
    ultimately show ?thesis by simp
  qed
qed

lemma misplaced_None:
  "\<forall>f\<in>set fs. compression (signal_fi f) = None \<and> comment f = None \<Longrightarrow> misplaced fs = None"
  by (induction fs) simp_all

lemma volume_set_replay_gain [simp]:
  "volume (set_replay_gain env rg c f) = volume f"
  by (simp add: set_replay_gain_def split: option.split)

lemma volume_prepare_input:
  "volume (prepare_input g j) =
     (if combine_method g = sox_mix \<and> \<not> uservolume g
      then Some (1 / real (input_count g)) else volume (files g ! j))"
  by (simp add: prepare_input_def Let_def)

text \<open>
  The loop that opens the inputs leaves the number of files, the combine method and
  \<open>uservolume\<close> as they are; of the files it only changes the ones it opens, and of
  their volume only what the default for mixing asks.
\<close>

lemma open_inputs_Inr:
  assumes "open_inputs env n g tr = (tr', Inr g')" and "n \<le> length (files g)"
  shows "length (files g') = length (files g) \<and> combine_method g' = combine_method g
     \<and> uservolume g' = uservolume g
     \<and> (\<forall>j<n. volume (files g' ! j) =
           (if combine_method g = sox_mix \<and> \<not> uservolume g
            then Some (1 / real (input_count g)) else volume (files g ! j)))
     \<and> (\<forall>j\<ge>n. files g' ! j = files g ! j)"
  using assms
proof (induction n arbitrary: g tr)
  case 0
  then show ?case by simp
next
  case (Suc n)
  define f where "f = prepare_input g n"
  obtain d where d: "sox_open_read env (filename f) (signal_fi f) (filetype f) = Some d"
    using Suc.prems(1) by (cases "sox_open_read env (filename f) (signal_fi f) (filetype f)")
      (simp_all add: f_def [symmetric] Let_def)
  define f1 where "f1 = f\<lparr>desc := Some d\<rparr>"
  define g1 where "g1 = (if show_progress g = SOX_OPTION_DEFAULT \<and> is_real_device env d
                        then g\<lparr>show_progress := SOX_OPTION_YES\<rparr> else g)"
  define f2 where "f2 = (case comment_ft d of
                          None \<Rightarrow> f1
                        | Some c \<Rightarrow> set_replay_gain env (replay_gain_mode g1) c f1)"
  define g2 where "g2 = g1\<lparr>files := (files g1)[n := f2]\<rparr>"
  have g1: "files g1 = files g" "combine_method g1 = combine_method g"
    "uservolume g1 = uservolume g"
    by (simp_all add: g1_def)
  have g2: "length (files g2) = length (files g)" "combine_method g2 = combine_method g"
    "uservolume g2 = uservolume g" "input_count g2 = input_count g"
    by (simp_all add: g2_def g1 input_count_def)
  have v2: "volume f2 = volume (prepare_input g n)"
    by (simp add: f2_def f1_def f_def split: option.split)
  have e: "open_inputs env (Suc n) g tr = open_inputs env n g2 (tr @ [filename f])"
    by (simp add: f_def [symmetric] d Let_def f1_def [symmetric] g1_def [symmetric]
        f2_def [symmetric] g2_def [symmetric])
  with Suc.prems have o: "open_inputs env n g2 (tr @ [filename f]) = (tr', Inr g')"
    and n: "n \<le> length (files g2)" "n < length (files g)"
    by (simp_all add: g2)
  note ih = Suc.IH [OF o n(1)]
  have "\<forall>j<Suc n. volume (files g' ! j) =
           (if combine_method g = sox_mix \<and> \<not> uservolume g
            then Some (1 / real (input_count g)) else volume (files g ! j))"
  proof (intro allI impI)
    fix j assume j: "j < Suc n"
    show "volume (files g' ! j) =
           (if combine_method g = sox_mix \<and> \<not> uservolume g
            then Some (1 / real (input_count g)) else volume (files g ! j))"
    proof (cases "j = n")
      case True
      from ih have "files g' ! n = files g2 ! n" by simp
      also have "\<dots> = f2" using n(2) by (simp add: g2_def g1)
      finally show ?thesis using True v2 by (simp add: volume_prepare_input)
    next
      case False
      with j have jn: "j < n" by simp
      with ih have "volume (files g' ! j) =
           (if combine_method g2 = sox_mix \<and> \<not> uservolume g2
            then Some (1 / real (input_count g2)) else volume (files g2 ! j))" by simp
      moreover have "files g2 ! j = files g ! j" using False by (simp add: g2_def g1)
      ultimately show ?thesis by (simp add: g2)
    qed
  qed
  moreover have "\<forall>j\<ge>Suc n. files g' ! j = files g ! j"
  proof (intro allI impI)
    fix j assume j: "Suc n \<le> j"
    with ih have "files g' ! j = files g2 ! j" by simp
    also have "\<dots> = files g ! j" using j by (simp add: g2_def g1)
    finally show "files g' ! j = files g ! j" .
  qed
  ultimately show ?case using ih by (simp add: g2)
qed

lemma open_inputs_all:
  assumes "\<forall>nm si ty. sox_open_read env nm si ty \<noteq> None"
  shows "\<exists>tr' g'. open_inputs env n g tr = (tr', Inr g') \<and> length tr' = length tr + n"
proof (induction n arbitrary: g tr)
  case 0
  show ?case by simp
next
  case (Suc n)
  define f where "f = prepare_input g n"
  from assms have "sox_open_read env (filename f) (signal_fi f) (filetype f) \<noteq> None"
    by blast
  then obtain d where d: "sox_open_read env (filename f) (signal_fi f) (filetype f) = Some d"
    by blast
  define f1 where "f1 = f\<lparr>desc := Some d\<rparr>"
  define g1 where "g1 = (if show_progress g = SOX_OPTION_DEFAULT \<and> is_real_device env d
                        then g\<lparr>show_progress := SOX_OPTION_YES\<rparr> else g)"
  define f2 where "f2 = (case comment_ft d of
                          None \<Rightarrow> f1
                        | Some c \<Rightarrow> set_replay_gain env (replay_gain_mode g1) c f1)"
  define g2 where "g2 = g1\<lparr>files := (files g1)[n := f2]\<rparr>"
  have e: "open_inputs env (Suc n) g tr = open_inputs env n g2 (tr @ [filename f])"
    by (simp add: f_def [symmetric] d Let_def f1_def [symmetric] g1_def [symmetric]
        f2_def [symmetric] g2_def [symmetric])
  from Suc [of g2 "tr @ [filename f]"] show ?case by (simp only: e) simp
qed

lemmas cmd_defs = main_def parse_options_and_filenames_def startup_def initial_globals_def
  ends_with_def env_ex_def is_playlist_def lower_def new_file_def add_play_device_def
  add_rec_device_def set_device_def bind_exit_def MAX_FILES_def MAX_INPUT_FILES_def
  input_count_def required_inputs_def output_file_def prepare_input_def open_ex_def
  set_replay_gain_def usage_def Let_def too_many_filenames_def

lemma open_inputs_numeral:
  "open_inputs env (numeral k) g tr = open_inputs env (Suc (pred_numeral k)) g tr"
  by (simp add: numeral_eq_Suc)

text \<open>
  What \<open>main\<close> returns when the inputs are open: the loop that opens them ran over the
  files that \<open>parse_options_and_filenames\<close> found.
\<close>

lemma main_Inr:
  assumes "parse_options_and_filenames fuel env (startup env myname) args = Some (Inr (g0, rest0))"
    and "main fuel env myname args = Some (tr, Inr (g, rest))"
  shows "open_inputs env (input_count g0) g0 [] = (tr, Inr g)"
proof -
  obtain tr1 r where o: "open_inputs env (input_count g0) g0 [] = (tr1, r)"
    by (cases "open_inputs env (input_count g0) g0 []")
  from assms(2) show ?thesis
    by (cases r)
      (simp_all add: main_def assms(1) o split: if_splits option.splits)
qed

text \<open>
  What one option does to the volume of the file and to \<open>uservolume\<close>, and what it
  leaves alone.
\<close>

lemma doopt_Inr:
  assumes "doopt env k f g = Inr (b, f1, g1)"
  shows "(b \<longleftrightarrow> k = O_null) \<and> uservolume g1 = (uservolume g \<or> is_v k)
     \<and> (\<not> is_v k \<longrightarrow> volume f1 = volume f)
     \<and> files g1 = files g \<and> play g1 = play g \<and> rec g1 = rec g"
  using assms
  by (cases k) (auto split: option.splits if_splits endian_option.splits)


text \<open>
  \<open>doopts\<close> on the options of a file: it stops at the name, or returns at \<open>-n\<close>.
  \<open>uservolume\<close> is set if and only if \<open>-v\<close> is among the options or it was set
  before, and without \<open>-v\<close> the volume of the file is left as it is.
\<close>

lemma doopts_file:
  assumes "doopts env f g (map Opt os @ t # rest) = Inr (b, f1, g1, rest1)"
      and "O_null \<notin> set os"
      and "t = Opt O_null \<or> (\<exists>w. t = Word w)"
  shows "(b \<longleftrightarrow> t = Opt O_null)
     \<and> rest1 = (if t = Opt O_null then rest else t # rest)
     \<and> uservolume g1 = (uservolume g \<or> given_v os)
     \<and> (\<not> given_v os \<longrightarrow> volume f1 = volume f)
     \<and> files g1 = files g \<and> play g1 = play g \<and> rec g1 = rec g"
  using assms(1, 2)
proof (induction os arbitrary: f g)
  case Nil
  with assms(3) show ?case
    by (auto simp add: given_v_def)
next
  case (Cons k os)
  from Cons.prems(2) have k: "k \<noteq> O_null" and n: "O_null \<notin> set os"
    by auto
  show ?case
  proof (cases "doopt env k f g")
    case (Inl x)
    with Cons.prems(1) show ?thesis by simp
  next
    case (Inr r)
    obtain b2 f2 g2 where r: "r = (b2, f2, g2)" by (cases r)
    note d = doopt_Inr [OF Inr [unfolded r]]
    from d k have "\<not> b2" by simp
    with Cons.prems(1) Inr r
    have "doopts env f2 g2 (map Opt os @ t # rest) = Inr (b, f1, g1, rest1)"
      by simp
    note ih = Cons.IH [OF this n]
    from ih d show ?thesis
      by (auto simp add: given_v_def)
  qed
qed

text \<open>
  The loop of \<open>parse_options_and_filenames\<close> on a command line of this form, when it
  ends without an exit: every file of the command line is in \<open>files\<close>, a file without
  \<open>-v\<close> has no volume, and \<open>uservolume\<close> says whether some file has \<open>-v\<close>.
\<close>

lemma parse_files_command_line:
  assumes "parse_files fuel env g (command_line specs effects) = Some (Inr (g', rest, fo))"
      and "\<forall>s\<in>set specs. plain_file env s"
      and "effects_part env effects"
  shows "rest = effects \<and> fo = None
     \<and> length (files g') = length (files g) + length specs
     \<and> (\<forall>k<length (files g). files g' ! k = files g ! k)
     \<and> (\<forall>k<length specs. \<not> given_v (fst (specs ! k))
            \<longrightarrow> volume (files g' ! (length (files g) + k)) = None)
     \<and> uservolume g' = (uservolume g \<or> (\<exists>s\<in>set specs. given_v (fst s)))
     \<and> play g' = play g \<and> rec g' = rec g"
  using assms(1, 2)
proof (induction specs arbitrary: g)
  case Nil
  from assms(3) consider "effects = []"
    | w es where "effects = Word w # es" "is_effect_name env w"
    by (auto simp add: effects_part_def split: list.splits arg.splits)
  then show ?case
  proof cases
    case 1
    with Nil.prems(1) show ?thesis by (simp add: command_line_def)
  next
    case 2
    with Nil.prems(1) show ?thesis by (simp add: command_line_def)
  qed
next
  case (Cons sp specs)
  obtain os nm where sp: "sp = (os, nm)" by (cases sp)
  define t where "t = (case nm of Some w \<Rightarrow> Word w | None \<Rightarrow> Opt O_null)"
  define tl_args where "tl_args = command_line specs effects"
  from Cons.prems(2) sp have n: "O_null \<notin> set os"
    and w: "\<And>w. nm = Some w \<Longrightarrow> \<not> is_effect_name env w \<and> \<not> is_playlist env w"
    and pl: "\<forall>s\<in>set specs. plain_file env s"
    by (auto simp add: plain_file_def)
  have t: "t = Opt O_null \<or> (\<exists>w. t = Word w)"
    by (cases nm) (simp_all add: t_def)
  have args: "command_line (sp # specs) effects = map Opt os @ t # tl_args"
    by (simp add: command_line_def file_args_def sp t_def tl_args_def)
  obtain a args' where c: "map Opt os @ t # tl_args = a # args'"
    by (cases "map Opt os @ t # tl_args") simp_all
  have e: "\<not> (case a of Word w \<Rightarrow> is_effect_name env w | Opt k \<Rightarrow> False)"
  proof (cases os)
    case Nil
    with c have "a = t" by simp
    then show ?thesis using w by (cases nm) (simp_all add: t_def)
  next
    case (Cons k ks)
    with c have "a = Opt k" by simp
    then show ?thesis by simp
  qed
  from Cons.prems(1) have p: "parse_files fuel env g (a # args') = Some (Inr (g', rest, fo))"
    by (simp only: args c)
  from p e have m: "\<not> MAX_FILES \<le> length (files g)"
    by (auto split: if_splits)
  obtain b f1 g1 rest1 where d0: "doopts env new_file g (a # args') = Inr (b, f1, g1, rest1)"
    using p e m by (cases "doopts env new_file g (a # args')") auto
  then have d: "doopts env new_file g (map Opt os @ t # tl_args) = Inr (b, f1, g1, rest1)"
    by (simp only: c)
  note r = doopts_file [OF d n t]
  define fl where "fl = (case nm of
      Some w \<Rightarrow> f1\<lparr>filename := Some w\<rparr>
    | None \<Rightarrow> f1\<lparr>filetype := Some ''null'', filename := Some ''-n''\<rparr>)"
  define g2 where "g2 = g1\<lparr>files := files g1 @ [fl]\<rparr>"
  have p2: "parse_files fuel env g2 tl_args = Some (Inr (g', rest, fo))"
  proof (cases nm)
    case None
    with r have "b" and "rest1 = tl_args" by (simp_all add: t_def)
    with p e m d0 show ?thesis
      by (simp add: g2_def fl_def None)
  next
    case (Some w')
    with r have "\<not> b" and "rest1 = Word w' # tl_args" by (simp_all add: t_def)
    with p e m d0 w [OF Some] show ?thesis
      by (simp add: g2_def fl_def Some)
  qed
  have v: "\<not> given_v os \<Longrightarrow> volume fl = None"
    using r by (cases nm) (simp_all add: fl_def new_file_def)
  have f2: "files g2 = files g @ [fl]"
    using r by (simp add: g2_def)
  have g2: "uservolume g2 = (uservolume g \<or> given_v os)" "play g2 = play g" "rec g2 = rec g"
    using r by (simp_all add: g2_def)
  note ih = Cons.IH [OF p2 [unfolded tl_args_def] pl]
  from ih have 1: "rest = effects" "fo = None"
    and 2: "length (files g') = length (files g) + length (sp # specs)"
    and k: "\<forall>k<length (files g2). files g' ! k = files g2 ! k"
    and vi: "\<forall>k<length specs. \<not> given_v (fst (specs ! k))
            \<longrightarrow> volume (files g' ! (length (files g2) + k)) = None"
    and u: "uservolume g' = (uservolume g2 \<or> (\<exists>s\<in>set specs. given_v (fst s)))"
    and pr: "play g' = play g" "rec g' = rec g"
    by (simp_all add: f2 g2)
  have 3: "\<forall>k<length (files g). files g' ! k = files g ! k"
    using k by (simp add: f2 nth_append)
  have 4: "\<forall>k<length (sp # specs). \<not> given_v (fst ((sp # specs) ! k))
            \<longrightarrow> volume (files g' ! (length (files g) + k)) = None"
  proof (intro allI impI)
    fix k assume k1: "k < length (sp # specs)" and k2: "\<not> given_v (fst ((sp # specs) ! k))"
    show "volume (files g' ! (length (files g) + k)) = None"
    proof (cases k)
      case 0
      with k have "files g' ! (length (files g) + k) = fl" by (simp add: f2)
      with k2 0 v show ?thesis by (simp add: sp)
    next
      case (Suc k')
      with k1 k2 vi have "volume (files g' ! (length (files g2) + k')) = None" by simp
      with Suc show ?thesis by (simp add: f2)
    qed
  qed
  have 5: "uservolume g' = (uservolume g \<or> (\<exists>s\<in>set (sp # specs). given_v (fst s)))"
    using u by (auto simp add: g2 sp)
  from 1 2 3 4 5 pr show ?case by blast
qed


text \<open>
  \<open>parse_options_and_filenames\<close> for \<open>sox\<close> on a command line of this form: nothing
  is added to what the loop found.
\<close>

lemma parse_command_line:
  assumes "parse_options_and_filenames fuel env (startup env myname) (command_line specs effects)
             = Some (Inr (g0, rest0))"
      and "\<forall>s\<in>set specs. plain_file env s"
      and "effects_part env effects"
      and "\<not> ends_with myname ''play''" and "\<not> ends_with myname ''rec''"
  shows "length (files g0) = length specs
     \<and> (\<forall>k<length specs. \<not> given_v (fst (specs ! k)) \<longrightarrow> volume (files g0 ! k) = None)
     \<and> uservolume g0 = (\<exists>s\<in>set specs. given_v (fst s))"
proof -
  define gs where "gs = startup env myname"
  have gs: "files gs = []" "\<not> uservolume gs" "\<not> play gs" "\<not> rec gs"
    using assms(4, 5) by (simp_all add: gs_def startup_def initial_globals_def)
  from assms(1) obtain g1 r1 fo where
    p: "parse_files fuel env gs (command_line specs effects) = Some (Inr (g1, r1, fo))"
    by (auto simp add: parse_options_and_filenames_def gs_def split: option.splits sum.splits)
  note l = parse_files_command_line [OF p assms(2, 3)]
  from l gs have "fo = None" "\<not> play g1" "\<not> rec g1"
    by simp_all
  with assms(1) p have "g0 = g1"
    by (simp add: parse_options_and_filenames_def gs_def [symmetric] add_play_device_def
        add_rec_device_def bind_exit_def)
  with l gs show ?thesis
    by simp
qed

lemma main_parsed:
  assumes "main fuel env myname args = Some (tr, Inr (g, rest))"
  shows "\<exists>g0 rest0. parse_options_and_filenames fuel env (startup env myname) args
           = Some (Inr (g0, rest0))"
  using assms
  by (auto simp add: main_def split: option.splits sum.splits)


text \<open>
  Claim C6, as it holds. Take a command line of \<open>sox\<close> of the usual form, files with
  their options and then the effects, on which \<open>main\<close> gets as far as having opened
  the inputs, in mix combining. Then the number \<open>N\<close> of inputs is the number of files
  on the command line less one, and an input file that was not given \<open>-v\<close> is
  balanced with the volume \<open>1 / N\<close> if no file of the command line was given \<open>-v\<close>,
  and with the volume 1 if some file was; in both cases times
  \<open>pow(10, replay_gain / 20)\<close> if a replay gain was found for the file.
\<close>

theorem mix_volume:
  assumes "\<forall>s\<in>set specs. plain_file env s"
      and "effects_part env effects"
      and "\<not> ends_with myname ''play''" and "\<not> ends_with myname ''rec''"
      and "main fuel env myname (command_line specs effects) = Some (tr, Inr (g, rest))"
      and "combine_method g = sox_mix"
      and "j < input_count g"
      and "\<not> given_v (fst (specs ! j))"
  shows "input_count g = length specs - 1
     \<and> volume (progress_to_file (files g ! j)) =
         Some ((if \<exists>s\<in>set specs. given_v (fst s) then 1 else 1 / real (input_count g))
               * (case replay_gain (files g ! j) of None \<Rightarrow> 1 | Some rg \<Rightarrow> 10 powr (rg / 20)))"
proof -
  from main_parsed [OF assms(5)] obtain g0 rest0 where
    p: "parse_options_and_filenames fuel env (startup env myname) (command_line specs effects)
          = Some (Inr (g0, rest0))"
    by blast
  note c = parse_command_line [OF p assms(1, 2, 3, 4)]
  note o = main_Inr [OF p assms(5)]
  have "input_count g0 \<le> length (files g0)"
    by (simp add: input_count_def)
  note i = open_inputs_Inr [OF o this]
  from i have n: "input_count g = input_count g0"
    by (simp add: input_count_def)
  with c have n': "input_count g = length specs - 1"
    by (simp add: input_count_def)
  from i assms(6) have m: "combine_method g0 = sox_mix"
    by simp
  from i have u: "uservolume g0 = uservolume g"
    by simp
  from assms(7) n' have "j < length specs"
    by simp
  with c assms(8) have v0: "volume (files g0 ! j) = None"
    by simp
  from i assms(7) n have "volume (files g ! j) =
      (if combine_method g0 = sox_mix \<and> \<not> uservolume g0
       then Some (1 / real (input_count g0)) else volume (files g0 ! j))"
    by simp
  with c have v: "volume (files g ! j) =
      (if \<exists>s\<in>set specs. given_v (fst s) then None else Some (1 / real (input_count g)))"
    by (simp add: m n v0)
  define some_v where "some_v \<longleftrightarrow> (\<exists>s\<in>set specs. given_v (fst s))"
  from v have v': "volume (files g ! j) =
      (if some_v then None else Some (1 / real (input_count g)))"
    by (simp add: some_v_def)
  have "volume (progress_to_file (files g ! j)) =
         Some ((if some_v then 1 else 1 / real (input_count g))
               * (case replay_gain (files g ! j) of None \<Rightarrow> 1 | Some rg \<Rightarrow> 10 powr (rg / 20)))"
    by (cases some_v) (simp_all add: progress_to_file_def Let_def v' split: option.split)
  with n' show ?thesis
    unfolding some_v_def by simp
qed

text \<open>
  \<open>sox -m a.wav b.wav out.wav\<close>: the second input is mixed at one half.
\<close>

theorem mix_volume_witness:
  "\<exists>tr g. main 0 env_ex ''sox'' [Opt O_m, Word ''a.wav'', Word ''b.wav'', Word ''out.wav'']
            = Some (tr, Inr (g, []))
     \<and> input_count g = 2
     \<and> volume (progress_to_file (files g ! 1)) = Some (1 / 2)"
proof -
  let ?specs = "[([O_m], Some ''a.wav''), ([], Some ''b.wav''), ([], Some ''out.wav'')]"
  have a: "command_line ?specs [] = [Opt O_m, Word ''a.wav'', Word ''b.wav'', Word ''out.wav'']"
    by (simp add: command_line_def file_args_def)
  have 1: "\<forall>s\<in>set ?specs. plain_file env_ex s"
    by (simp add: plain_file_def env_ex_def is_playlist_def ends_with_def lower_def)
  have 2: "effects_part env_ex []"
    by (simp add: effects_part_def)
  have 3: "\<not> ends_with ''sox'' ''play''" "\<not> ends_with ''sox'' ''rec''"
    by (simp_all add: ends_with_def)
  have "\<exists>tr g. main 0 env_ex ''sox'' (command_line ?specs []) = Some (tr, Inr (g, []))
      \<and> combine_method g = sox_mix \<and> length (files g) = 3
      \<and> replay_gain (files g ! 1) = None"
    unfolding a by (simp add: cmd_defs open_inputs_numeral)
  then obtain tr g where m: "main 0 env_ex ''sox'' (command_line ?specs []) = Some (tr, Inr (g, []))"
    and c: "combine_method g = sox_mix"
    and l: "length (files g) = 3" and r: "replay_gain (files g ! 1) = None"
    by blast
  from l have "1 < input_count g"
    by (simp add: input_count_def)
  moreover have "\<not> given_v (fst (?specs ! 1))"
    by (simp add: given_v_def)
  ultimately have "input_count g = length ?specs - 1
     \<and> volume (progress_to_file (files g ! 1)) =
         Some ((if \<exists>s\<in>set ?specs. given_v (fst s) then 1 else 1 / real (input_count g))
               * (case replay_gain (files g ! 1) of None \<Rightarrow> 1 | Some rg \<Rightarrow> 10 powr (rg / 20)))"
    by (rule mix_volume [OF 1 2 3 m c])
  moreover from r have "replay_gain (files g ! Suc 0) = None"
    by simp
  ultimately have "input_count g = 2 \<and> volume (progress_to_file (files g ! 1)) = Some (1 / 2)"
    by (simp add: given_v_def)
  with m show ?thesis
    unfolding a by blast
qed

text \<open>
  Claim C6, as the specification has it, fails: in mix combining an input file whose
  volume was not given by the user is mixed at 1, not at one \<open>N\<close>-th, as soon as another
  input file was given \<open>-v\<close>. In \<open>sox -m -v 0.5 a.wav b.wav out.wav\<close> no volume is read
  for \<open>b.wav\<close>, there are two inputs, and \<open>b.wav\<close> is mixed at 1.
\<close>

theorem mix_volume_counterexample:
  "\<exists>g0 tr g.
     parse_options_and_filenames 0 env_ex (startup env_ex ''sox'')
       (command_line [([O_m, O_v (Some (Some (1 / 2)))], Some ''a.wav''), ([], Some ''b.wav''),
                      ([], Some ''out.wav'')] [])
       = Some (Inr (g0, []))
     \<and> main 0 env_ex ''sox''
       (command_line [([O_m, O_v (Some (Some (1 / 2)))], Some ''a.wav''), ([], Some ''b.wav''),
                      ([], Some ''out.wav'')] [])
       = Some (tr, Inr (g, []))
     \<and> combine_method g = sox_mix \<and> input_count g = 2
     \<and> volume (files g0 ! 1) = None
     \<and> volume (progress_to_file (files g ! 1)) = Some 1
     \<and> volume (progress_to_file (files g ! 1)) \<noteq> Some (1 / real (input_count g))"
  by (simp add: command_line_def file_args_def cmd_defs open_inputs_numeral
      progress_to_file_def)

text \<open>
  Claim C9: the limit is on the table of all files, which has \<open>MAX_INPUT_FILES + 2\<close>
  entries, one of them for the recording device. A command line of \<open>sox\<close> that names
  34 files, which are 33 input files and the output file, is not refused: no
  \<open>Too many filenames\<close> error is given, and \<open>main\<close> goes on to open the 33 inputs.
\<close>

theorem thirty_three_inputs_accepted:
  assumes "\<forall>w\<in>set names. \<not> is_effect_name env w \<and> \<not> is_playlist env w"
    and "length names = MAX_INPUT_FILES + 2"
    and "\<not> ends_with myname ''play''" and "\<not> ends_with myname ''rec''"
    and "find_formats_ok env"
    and "\<forall>nm si ty. sox_open_read env nm si ty \<noteq> None"
  shows "\<exists>tr g. main fuel env myname (map Word names) = Some (tr, Inr (g, []))
     \<and> input_count g = MAX_INPUT_FILES + 1 \<and> length tr = MAX_INPUT_FILES + 1"
proof -
  define g0 :: "'a globals" where "g0 = initial_globals env"
  define F :: "string \<Rightarrow> 'a file_info" where "F = (\<lambda>w. new_file\<lparr>filename := Some w\<rparr>)"
  define gp where "gp = g0\<lparr>files := map F names\<rparr>"
  have s: "startup env myname = g0"
    using assms(3, 4) by (simp add: startup_def g0_def)
  have g0: "files g0 = []" "\<not> play g0" "\<not> rec g0" "combine_method g0 = sox_concatenate"
    by (simp_all add: g0_def initial_globals_def)
  have "length (files g0) + length names \<le> MAX_FILES"
    using assms(2) by (simp add: g0 MAX_FILES_def)
  from parse_files_plain [OF assms(1) this, of fuel]
  have "parse_files fuel env g0 (map Word names) = Some (Inr (gp, [], None))"
    by (simp add: gp_def g0 F_def)
  then have p: "parse_options_and_filenames fuel env (startup env myname) (map Word names)
      = Some (Inr (gp, []))"
    by (simp add: parse_options_and_filenames_def s add_play_device_def add_rec_device_def
        bind_exit_def gp_def g0)
  have n: "input_count gp = MAX_INPUT_FILES + 1"
    using assms(2) by (simp add: input_count_def gp_def)
  have "combine_method gp = sox_concatenate"
    by (simp add: gp_def g0)
  then have r: "\<not> input_count gp < required_inputs (combine_method gp)"
    by (simp add: n required_inputs_def MAX_INPUT_FILES_def)
  have "\<forall>f\<in>set (map F names). compression (signal_fi f) = None \<and> comment f = None"
    by (simp add: F_def new_file_def)
  then have "\<forall>f\<in>set (take (input_count gp) (files gp)).
      compression (signal_fi f) = None \<and> comment f = None"
    using set_take_subset [of "input_count gp" "map F names"] by (auto simp add: gp_def)
  then have m: "misplaced (take (input_count gp) (files gp)) = None"
    by (rule misplaced_None)
  have "output_file gp = F (names ! (MAX_INPUT_FILES + 1))"
    using assms(2) by (simp add: output_file_def gp_def)
  then have v: "volume (output_file gp) = None"
    by (simp add: F_def new_file_def)
  from open_inputs_all [OF assms(6), of "input_count gp" gp "[]"]
  obtain tr g where o: "open_inputs env (input_count gp) gp [] = (tr, Inr g)"
    and t: "length tr = input_count gp"
    by auto
  have "input_count gp \<le> length (files gp)"
    by (simp add: input_count_def)
  from open_inputs_Inr [OF o this] have "input_count g = input_count gp"
    by (simp add: input_count_def)
  moreover have "main fuel env myname (map Word names) = Some (tr, Inr (g, []))"
    by (simp add: main_def p assms(5) r m v o)
  ultimately show ?thesis
    using t n by simp
qed

text \<open>
  \<open>sox in.wav \<dots> in.wav out.wav\<close> with 33 times \<open>in.wav\<close>: 33 inputs are opened.
\<close>

theorem thirty_three_inputs_accepted_witness:
  "\<exists>tr g. main 0 env_ex ''sox'' (map Word names_ex) = Some (tr, Inr (g, []))
     \<and> input_count g = 33 \<and> length tr = 33"
proof -
  have 1: "\<forall>w\<in>set names_ex. \<not> is_effect_name env_ex w \<and> \<not> is_playlist env_ex w"
    by (simp add: names_ex_def env_ex_def is_playlist_def ends_with_def lower_def)
  have 2: "length names_ex = MAX_INPUT_FILES + 2"
    by (simp add: names_ex_def MAX_INPUT_FILES_def)
  have 3: "\<not> ends_with ''sox'' ''play''" "\<not> ends_with ''sox'' ''rec''"
    by (simp_all add: ends_with_def)
  have 4: "find_formats_ok env_ex"
    by (simp add: env_ex_def)
  have 5: "\<forall>nm si ty. sox_open_read env_ex nm si ty \<noteq> None"
    by (simp add: env_ex_def open_ex_def)
  from thirty_three_inputs_accepted [OF 1 2 3 4 5, of 0]
  show ?thesis
    by (simp add: MAX_INPUT_FILES_def)
qed

text \<open>
  One more name is refused, so the limit of the code is 33 input files and the output
  file.
\<close>

lemma thirty_four_inputs_refused:
  assumes "\<forall>w\<in>set names. \<not> is_effect_name env w \<and> \<not> is_playlist env w"
    and "MAX_INPUT_FILES + 2 < length names"
  shows "main fuel env myname (map Word names) = Some ([], Inl too_many_filenames)"
proof -
  have "length (files (startup env myname)) \<le> MAX_FILES"
    by (simp add: startup_def initial_globals_def)
  moreover have "MAX_FILES < length (files (startup env myname)) + length names"
    using assms(2) by (simp add: MAX_FILES_def)
  ultimately have "parse_files fuel env (startup env myname) (map Word names)
      = Some (Inl too_many_filenames)"
    by (rule parse_files_too_many [OF assms(1)])
  then show ?thesis
    by (simp add: main_def parse_options_and_filenames_def)
qed

text \<open>
  Claim C10, as it holds. If the command line is read without an error and the
  plug-ins load, and the number of inputs that were found, the recording device of
  \<open>rec\<close> among them, is less than one, or less than two for mix and merge, then the
  program ends with the usage error \<open>Not enough input filenames specified\<close> and exit
  code 1, and \<open>sox_open_read\<close> has not been called.
\<close>

theorem not_enough_inputs_usage:
  assumes "parse_options_and_filenames fuel env (startup env myname) args = Some (Inr (g, rest))"
    and "find_formats_ok env"
    and "input_count g <
           (if combine_method g = sox_mix \<or> combine_method g = sox_merge then 2 else 1)"
  shows "main fuel env myname args =
     Some ([], Inl (Exit 1 ''Not enough input filenames specified''))"
proof -
  from assms(3) have "input_count g < required_inputs (combine_method g)"
    by (cases "combine_method g") (simp_all add: required_inputs_def)
  with assms(1, 2) show ?thesis
    by (simp add: main_def usage_def)
qed

text \<open>\<open>sox -m a.wav out.wav\<close>: one input for mixing.\<close>

theorem not_enough_inputs_usage_witness:
  "main 0 env_ex ''sox'' [Opt O_m, Word ''a.wav'', Word ''out.wav''] =
     Some ([], Inl (Exit 1 ''Not enough input filenames specified''))"
proof -
  let ?args = "[Opt O_m, Word ''a.wav'', Word ''out.wav'']"
  have "\<exists>g. parse_options_and_filenames 0 env_ex (startup env_ex ''sox'') ?args
          = Some (Inr (g, []))
      \<and> combine_method g = sox_mix \<and> length (files g) = 2"
    by (simp add: cmd_defs)
  then obtain g where
    p: "parse_options_and_filenames 0 env_ex (startup env_ex ''sox'') ?args = Some (Inr (g, []))"
    and c: "combine_method g = sox_mix" and l: "length (files g) = 2"
    by blast
  have f: "find_formats_ok env_ex"
    by (simp add: env_ex_def)
  have "input_count g <
           (if combine_method g = sox_mix \<or> combine_method g = sox_merge then 2 else 1)"
    by (simp add: input_count_def c l)
  from not_enough_inputs_usage [OF p f this] show ?thesis .
qed

text \<open>
  Claim C10, as the specification has it, fails for \<open>rec\<close>: \<open>rec out.wav\<close> names no
  input file, the combine method is concatenate, and there is no usage error: the
  default recording device is the input, and \<open>main\<close> opens it.
\<close>

theorem rec_no_input_counterexample:
  "\<exists>g. main 0 env_ex ''rec'' [Word ''out.wav''] = Some ([Some ''default''], Inr (g, []))
     \<and> combine_method g = sox_concatenate
     \<and> map filename (files g) = [Some ''default'', Some ''out.wav'']"
  by (simp add: cmd_defs)

end
